theory Spec2Isabelle
  imports Complex_Main
begin

section \<open>Data model\<close>

text \<open>
  The entities of the game (the interfaces PlayerState, Projectile, FloatingText, Point
  and Landmark). A JavaScript number is modelled as a real: the development idealises
  IEEE doubles, so rounding, NaN and infinities are outside the model. The identifier
  strings produced by Math.random and the clock readings of Date.now are inputs.
  The optional field visibility of a landmark is never read and is left out. A landmark
  array is a list: it has no holes, and a missing landmark is an index beyond its end.
\<close>

datatype Side = SLeft | SRight

datatype AttackKind = Standard | Special | Sword

datatype error = TypeError

record Point =
  pt_x :: real
  pt_y :: real

record Landmark =
  lm_x :: real
  lm_y :: real
  lm_z :: real

record BBox =
  minX :: real
  minY :: real
  maxX :: real
  maxY :: real

record PrevWrists =
  pw_left :: Point
  pw_right :: Point

record PlayerState =
  player_id :: Side
  hp :: real
  isAI :: bool
  color :: string
  lastPunchTime :: real
  detected :: bool
  isShielding :: bool
  isCharging :: bool
  chargeStartTime :: real
  chargeLevel :: real
  hasSword :: bool
  prevSwordY :: real
  lastSwordFireTime :: real
  lastPoseTime :: real
  boundingBox :: "BBox option"
  prevWrists :: PrevWrists

record Projectile =
  proj_id :: string
  ptype :: AttackKind
  damage :: real
  blockDamage :: real
  proj_x :: real
  proj_y :: real
  proj_vx :: real
  proj_vy :: real
  owner :: Side
  active :: bool

record FloatingText =
  ft_id :: string
  ft_x :: real
  ft_y :: real
  ft_text :: string
  ft_color :: string
  life :: real
  maxLife :: real
  ft_vy :: real

text \<open>
  The object held in gameStateRef. Its field poseResults is written by the video loop
  and only read by the frame callback, so it is an input of a tick (see Frame below).
\<close>

record GameState =
  leftPlayer :: PlayerState
  rightPlayer :: PlayerState
  projectiles :: "Projectile list"
  floatingTexts :: "FloatingText list"
  virtualTargetY :: real
  virtualTargetSpeed :: real
  isGameOver :: bool

text \<open>
  A function that mutates the shared state either returns (Done) or throws; the state
  mutated before the throw is kept, as the object of the source keeps it.
\<close>

datatype 'a outcome = Done 'a | Throw error GameState

fun obind :: "'a outcome \<Rightarrow> ('a \<Rightarrow> 'b outcome) \<Rightarrow> 'b outcome" where
  "obind (Done a) f = f a"
| "obind (Throw e st) f = Throw e st"

text \<open>
  What one call of processPlayer reads from its environment: one clock reading for each
  place that calls Date.now, one identifier for each place that calls Math.random.
\<close>

record Env =
  nowSpecial :: real
  nowSword :: real
  nowPunchL :: real
  nowPunchR :: real
  idSpecial :: string
  idSword :: string
  idPunchL :: string
  idPunchR :: string

text \<open>
  The input of one frame callback: the latest pose result (None when it is null or has no
  landmarks field), the environment of the k-th processed body, and the identifier drawn
  for a floating text created at projectile index i.
\<close>

record Frame =
  poseResults :: "Landmark list list option"
  envs :: "nat \<Rightarrow> Env"
  textIds :: "nat \<Rightarrow> string"

section \<open>Constants\<close>

definition MAX_HP :: real where "MAX_HP = 100"
definition PUNCH_COOLDOWN :: real where "PUNCH_COOLDOWN = 400"
definition PROJECTILE_SPEED :: real where "PROJECTILE_SPEED = 15"
definition SPECIAL_SPEED :: real where "SPECIAL_SPEED = 10"
definition EXTENSION_THRESHOLD :: real where "EXTENSION_THRESHOLD = 0.8"
definition PUNCH_SPEED_THRESHOLD :: real where "PUNCH_SPEED_THRESHOLD = 0.04"
definition SHIELD_THRESHOLD :: real where "SHIELD_THRESHOLD = 0.25"
definition SPECIAL_CHARGE_TIME :: real where "SPECIAL_CHARGE_TIME = 1500"
definition CHARGE_GRACE_PERIOD :: real where "CHARGE_GRACE_PERIOD = 500"
definition SWORD_ACTIVATION_DIST :: real where "SWORD_ACTIVATION_DIST = 0.15"
definition SWORD_HEIGHT_THRESHOLD :: real where "SWORD_HEIGHT_THRESHOLD = 0.5"
definition SWORD_SWING_THRESHOLD :: real where "SWORD_SWING_THRESHOLD = 0.04"
definition SWORD_COOLDOWN :: real where "SWORD_COOLDOWN = 800"
definition DAMAGE_STANDARD :: real where "DAMAGE_STANDARD = 2"
definition DAMAGE_SPECIAL :: real where "DAMAGE_SPECIAL = 10"
definition DAMAGE_SPECIAL_BLOCK :: real where "DAMAGE_SPECIAL_BLOCK = 3"
definition DAMAGE_SWORD :: real where "DAMAGE_SWORD = 3"
definition DAMAGE_SWORD_BLOCK :: real where "DAMAGE_SWORD_BLOCK = 1"
definition CANVAS_WIDTH :: real where "CANVAS_WIDTH = 1280"
definition CANVAS_HEIGHT :: real where "CANVAS_HEIGHT = 720"

text \<open>The canvas is created with these dimensions in setup, so p.width and p.height are:\<close>

definition p_width :: real where "p_width = CANVAS_WIDTH"
definition p_height :: real where "p_height = CANVAS_HEIGHT"

section \<open>The initial state and resetGame\<close>

definition initPlayer :: "Side \<Rightarrow> bool \<Rightarrow> string \<Rightarrow> PlayerState" where
  "initPlayer s ai c =
     \<lparr> player_id = s, hp = MAX_HP, isAI = ai, color = c,
       lastPunchTime = 0, detected = False, isShielding = False,
       isCharging = False, chargeStartTime = 0, chargeLevel = 0,
       hasSword = False, prevSwordY = 0, lastSwordFireTime = 0,
       lastPoseTime = 0, boundingBox = None,
       prevWrists = \<lparr> pw_left = \<lparr> pt_x = 0, pt_y = 0 \<rparr>,
                      pw_right = \<lparr> pt_x = 0, pt_y = 0 \<rparr> \<rparr> \<rparr>"

definition initState :: GameState where
  "initState =
     \<lparr> leftPlayer = initPlayer SLeft False ''#3b82f6'',
       rightPlayer = initPlayer SRight True ''#ef4444'',
       projectiles = [], floatingTexts = [],
       virtualTargetY = 0.5, virtualTargetSpeed = 0.005,
       isGameOver = False \<rparr>"

definition resetGame :: "GameState \<Rightarrow> GameState" where
  "resetGame st =
     st \<lparr> leftPlayer := (leftPlayer st) \<lparr> hp := MAX_HP, isCharging := False, chargeLevel := 0 \<rparr>,
          rightPlayer := (rightPlayer st) \<lparr> hp := MAX_HP, isCharging := False, chargeLevel := 0 \<rparr>,
          projectiles := [], floatingTexts := [], isGameOver := False \<rparr>"

section \<open>Helpers\<close>

definition getPlayer :: "Side \<Rightarrow> GameState \<Rightarrow> PlayerState" where
  "getPlayer side st = (case side of SLeft \<Rightarrow> leftPlayer st | SRight \<Rightarrow> rightPlayer st)"

definition setPlayer :: "Side \<Rightarrow> PlayerState \<Rightarrow> GameState \<Rightarrow> GameState" where
  "setPlayer side pl st =
     (case side of SLeft \<Rightarrow> st \<lparr> leftPlayer := pl \<rparr> | SRight \<Rightarrow> st \<lparr> rightPlayer := pl \<rparr>)"

definition updPlayer :: "Side \<Rightarrow> (PlayerState \<Rightarrow> PlayerState) \<Rightarrow> GameState \<Rightarrow> GameState" where
  "updPlayer side f st = setPlayer side (f (getPlayer side st)) st"

text \<open>Reading landmarks[i]: undefined (None) beyond the end of the array.\<close>

definition lmAt :: "Landmark list \<Rightarrow> nat \<Rightarrow> Landmark option" where
  "lmAt landmarks i = (if i < length landmarks then Some (landmarks ! i) else None)"

definition getDist :: "Landmark \<Rightarrow> Landmark \<Rightarrow> real" where
  "getDist a b = sqrt ((lm_x a - lm_x b) ^ 2 + (lm_y a - lm_y b) ^ 2)"

definition resetPlayerAction :: "PlayerState \<Rightarrow> PlayerState" where
  "resetPlayerAction player =
     player \<lparr> isShielding := False, isCharging := False, chargeLevel := 0, hasSword := False \<rparr>"

text \<open>
  Dereferencing a landmark (reading its x or y): a TypeError on undefined, thrown from
  the state reached so far.
\<close>

definition deref :: "Landmark option \<Rightarrow> GameState \<Rightarrow> (Landmark \<Rightarrow> 'a outcome) \<Rightarrow> 'a outcome" where
  "deref lm st k = (case lm of None \<Rightarrow> Throw TypeError st | Some l \<Rightarrow> k l)"

section \<open>Gesture classification\<close>

subsection \<open>detectShield\<close>

definition shieldPose :: "Landmark \<Rightarrow> Landmark \<Rightarrow> Landmark \<Rightarrow> Landmark \<Rightarrow> bool" where
  "shieldPose leftWrist rightWrist leftShoulder rightShoulder =
     (let distLeftToLeftShoulder = getDist leftWrist leftShoulder;
          distLeftToRightShoulder = getDist leftWrist rightShoulder;
          distRightToRightShoulder = getDist rightWrist rightShoulder;
          distRightToLeftShoulder = getDist rightWrist leftShoulder;
          isLeftHandUp = (distLeftToLeftShoulder < SHIELD_THRESHOLD
                          \<or> distLeftToRightShoulder < SHIELD_THRESHOLD);
          isRightHandUp = (distRightToRightShoulder < SHIELD_THRESHOLD
                           \<or> distRightToLeftShoulder < SHIELD_THRESHOLD)
      in isLeftHandUp \<and> isRightHandUp)"

text \<open>The body of detectShield once the four landmarks have been dereferenced.\<close>

definition shieldBody ::
  "Side \<Rightarrow> Landmark \<Rightarrow> Landmark \<Rightarrow> Landmark \<Rightarrow> Landmark \<Rightarrow> GameState \<Rightarrow> GameState" where
  "shieldBody side leftWrist rightWrist leftShoulder rightShoulder st =
     (if shieldPose leftWrist rightWrist leftShoulder rightShoulder
      then updPlayer side (\<lambda>pl. pl \<lparr> isShielding := True, hasSword := False \<rparr>) st
      else updPlayer side (\<lambda>pl. pl \<lparr> isShielding := False \<rparr>) st)"

definition detectShield :: "Side \<Rightarrow> Landmark list \<Rightarrow> GameState \<Rightarrow> GameState outcome" where
  "detectShield side landmarks st =
     deref (lmAt landmarks 15) st (\<lambda>leftWrist.
     deref (lmAt landmarks 11) st (\<lambda>leftShoulder.
     deref (lmAt landmarks 12) st (\<lambda>rightShoulder.
     deref (lmAt landmarks 16) st (\<lambda>rightWrist.
       Done (shieldBody side leftWrist rightWrist leftShoulder rightShoulder st)))))"

subsection \<open>detectSpecial and fireSpecial\<close>

definition fireSpecial :: "Side \<Rightarrow> Landmark \<Rightarrow> Landmark \<Rightarrow> string \<Rightarrow> GameState \<Rightarrow> GameState" where
  "fireSpecial side leftWrist rightWrist rid st =
     (let centerX = (lm_x leftWrist + lm_x rightWrist) / 2;
          centerY = (lm_y leftWrist + lm_y rightWrist) / 2;
          startX = (1 - centerX) * p_width;
          startY = centerY * p_height;
          dir = (if side = SLeft then 1 else - 1)
      in st \<lparr> projectiles := projectiles st @
           [\<lparr> proj_id = rid, ptype = Special, damage = DAMAGE_SPECIAL,
              blockDamage = DAMAGE_SPECIAL_BLOCK, proj_x = startX, proj_y = startY,
              proj_vx = dir * SPECIAL_SPEED, proj_vy = 0, owner = side, active = True \<rparr>] \<rparr>)"

definition isSpecialPoseRaw :: "Landmark \<Rightarrow> Landmark \<Rightarrow> Landmark \<Rightarrow> Landmark \<Rightarrow> bool" where
  "isSpecialPoseRaw leftWrist rightWrist leftShoulder rightShoulder =
     (let leftHandUp = (lm_y leftWrist < lm_y leftShoulder);
          leftHandDown = (lm_y leftWrist > lm_y leftShoulder);
          rightHandUp = (lm_y rightWrist < lm_y rightShoulder);
          rightHandDown = (lm_y rightWrist > lm_y rightShoulder)
      in (leftHandUp \<and> rightHandDown) \<or> (rightHandUp \<and> leftHandDown))"

definition isHoldingPose ::
  "PlayerState \<Rightarrow> Landmark \<Rightarrow> Landmark \<Rightarrow> Landmark \<Rightarrow> Landmark \<Rightarrow> bool" where
  "isHoldingPose playerState leftWrist rightWrist leftShoulder rightShoulder =
     (isSpecialPoseRaw leftWrist rightWrist leftShoulder rightShoulder
      \<and> \<not> isShielding playerState \<and> \<not> hasSword playerState)"

definition specialBody ::
  "Side \<Rightarrow> Landmark \<Rightarrow> Landmark \<Rightarrow> Landmark \<Rightarrow> Landmark \<Rightarrow> real \<Rightarrow> string
     \<Rightarrow> GameState \<Rightarrow> GameState" where
  "specialBody side leftWrist rightWrist leftShoulder rightShoulder now rid st =
     (let playerState = getPlayer side st in
      if isHoldingPose playerState leftWrist rightWrist leftShoulder rightShoulder then
        (let ps1 = (if \<not> isCharging playerState
                    then playerState \<lparr> isCharging := True, chargeStartTime := now \<rparr>
                    else playerState);
             ps2 = ps1 \<lparr> lastPoseTime := now \<rparr>;
             elapsed = now - chargeStartTime ps2
         in setPlayer side (ps2 \<lparr> chargeLevel := min 1 (elapsed / SPECIAL_CHARGE_TIME) \<rparr>) st)
      else if isCharging playerState then
        (if chargeLevel playerState \<ge> 1 then
           updPlayer side (\<lambda>pl. pl \<lparr> isCharging := False, chargeLevel := 0 \<rparr>)
             (fireSpecial side leftWrist rightWrist rid st)
         else if now - lastPoseTime playerState > CHARGE_GRACE_PERIOD then
           updPlayer side (\<lambda>pl. pl \<lparr> isCharging := False, chargeLevel := 0 \<rparr>) st
         else st)
      else st)"

definition detectSpecial ::
  "Side \<Rightarrow> Landmark list \<Rightarrow> real \<Rightarrow> string \<Rightarrow> GameState \<Rightarrow> GameState outcome" where
  "detectSpecial side landmarks now rid st =
     deref (lmAt landmarks 15) st (\<lambda>leftWrist.
     deref (lmAt landmarks 11) st (\<lambda>leftShoulder.
     deref (lmAt landmarks 16) st (\<lambda>rightWrist.
     deref (lmAt landmarks 12) st (\<lambda>rightShoulder.
       Done (specialBody side leftWrist rightWrist leftShoulder rightShoulder now rid st)))))"

subsection \<open>detectSword\<close>

definition swordProjectile :: "Side \<Rightarrow> Landmark \<Rightarrow> Landmark \<Rightarrow> string \<Rightarrow> Projectile" where
  "swordProjectile side leftWrist rightWrist rid =
     (let currentHandY = (lm_y leftWrist + lm_y rightWrist) / 2;
          centerX = (lm_x leftWrist + lm_x rightWrist) / 2;
          startX = (1 - centerX) * p_width;
          startY = currentHandY * p_height;
          dir = (if side = SLeft then 1 else - 1)
      in \<lparr> proj_id = rid, ptype = Sword, damage = DAMAGE_SWORD,
           blockDamage = DAMAGE_SWORD_BLOCK, proj_x = startX, proj_y = startY,
           proj_vx = dir * PROJECTILE_SPEED * 1.2, proj_vy = 0, owner = side,
           active = True \<rparr>)"

text \<open>The part of detectSword after the early return, once both wrists are dereferenced.\<close>

definition swordBody ::
  "Side \<Rightarrow> Landmark \<Rightarrow> Landmark \<Rightarrow> real \<Rightarrow> string \<Rightarrow> GameState \<Rightarrow> GameState" where
  "swordBody side leftWrist rightWrist now rid st =
     (let playerState = getPlayer side st;
          currentHandY = (lm_y leftWrist + lm_y rightWrist) / 2;
          handDist = getDist leftWrist rightWrist;
          isInStance = (handDist < SWORD_ACTIVATION_DIST \<and> currentHandY > SWORD_HEIGHT_THRESHOLD);
          st1 =
            (if isInStance then
               (let st2 = updPlayer side (\<lambda>pl. pl \<lparr> hasSword := True \<rparr>) st in
                if prevSwordY playerState \<noteq> 0 then
                  (let dy = currentHandY - prevSwordY playerState in
                   if \<bar>dy\<bar> > SWORD_SWING_THRESHOLD
                      \<and> now - lastSwordFireTime playerState > SWORD_COOLDOWN
                   then (updPlayer side (\<lambda>pl. pl \<lparr> lastSwordFireTime := now \<rparr>) st2)
                          \<lparr> projectiles := projectiles st2 @
                               [swordProjectile side leftWrist rightWrist rid] \<rparr>
                   else st2)
                else st2)
             else updPlayer side (\<lambda>pl. pl \<lparr> hasSword := False \<rparr>) st)
      in updPlayer side (\<lambda>pl. pl \<lparr> prevSwordY := currentHandY \<rparr>) st1)"

definition detectSword ::
  "Side \<Rightarrow> Landmark list \<Rightarrow> real \<Rightarrow> string \<Rightarrow> GameState \<Rightarrow> GameState outcome" where
  "detectSword side landmarks now rid st =
     (let playerState = getPlayer side st in
      if isShielding playerState \<or> isCharging playerState
      then Done (updPlayer side (\<lambda>pl. pl \<lparr> hasSword := False \<rparr>) st)
      else
        deref (lmAt landmarks 15) st (\<lambda>leftWrist.
        deref (lmAt landmarks 16) st (\<lambda>rightWrist.
          Done (swordBody side leftWrist rightWrist now rid st))))"

subsection \<open>detectPunch and checkHand\<close>

datatype HandSide = HLeft | HRight

definition getPrevWrist :: "HandSide \<Rightarrow> PrevWrists \<Rightarrow> Point" where
  "getPrevWrist handSide pw = (case handSide of HLeft \<Rightarrow> pw_left pw | HRight \<Rightarrow> pw_right pw)"

definition setPrevWrist :: "HandSide \<Rightarrow> Point \<Rightarrow> PrevWrists \<Rightarrow> PrevWrists" where
  "setPrevWrist handSide pt pw =
     (case handSide of HLeft \<Rightarrow> pw \<lparr> pw_left := pt \<rparr> | HRight \<Rightarrow> pw \<lparr> pw_right := pt \<rparr>)"

definition punchProjectile :: "Side \<Rightarrow> Landmark \<Rightarrow> string \<Rightarrow> Projectile" where
  "punchProjectile side wrist rid =
     (let startX = (1 - lm_x wrist) * p_width;
          startY = lm_y wrist * p_height;
          dir = (if side = SLeft then 1 else - 1)
      in \<lparr> proj_id = rid, ptype = Standard, damage = DAMAGE_STANDARD,
           blockDamage = 0, proj_x = startX, proj_y = startY,
           proj_vx = dir * PROJECTILE_SPEED, proj_vy = 0, owner = side, active = True \<rparr>)"

text \<open>The height band of checkHand: inside the band when the early return is not taken.\<close>

definition inHeightBand :: "Landmark \<Rightarrow> Landmark \<Rightarrow> Landmark \<Rightarrow> bool" where
  "inHeightBand wrist shoulder hip =
     (let chestHighBound = lm_y shoulder - 0.1;
          chestLowBound = lm_y hip - 0.1
      in \<not> (lm_y wrist < chestHighBound \<or> lm_y wrist > chestLowBound))"

definition relWrist :: "Landmark \<Rightarrow> Landmark \<Rightarrow> Point" where
  "relWrist wrist shoulder =
     \<lparr> pt_x = lm_x wrist - lm_x shoulder, pt_y = lm_y wrist - lm_y shoulder \<rparr>"

definition handSpeed :: "Point \<Rightarrow> Landmark \<Rightarrow> Landmark \<Rightarrow> real" where
  "handSpeed prevWrist wrist shoulder =
     (let relX = lm_x wrist - lm_x shoulder;
          relY = lm_y wrist - lm_y shoulder;
          dx = relX - pt_x prevWrist;
          dy = relY - pt_y prevWrist
      in sqrt (dx * dx + dy * dy))"

text \<open>The part of checkHand after the three early returns.\<close>

definition handBody ::
  "Side \<Rightarrow> HandSide \<Rightarrow> Landmark \<Rightarrow> Landmark \<Rightarrow> real \<Rightarrow> real \<Rightarrow> string
     \<Rightarrow> GameState \<Rightarrow> GameState" where
  "handBody side handSide wrist shoulder scale now rid st =
     (let playerState = getPlayer side st;
          prevWrist = getPrevWrist handSide (prevWrists playerState);
          speed = handSpeed prevWrist wrist shoulder;
          st1 = updPlayer side
                  (\<lambda>pl. pl \<lparr> prevWrists :=
                     setPrevWrist handSide (relWrist wrist shoulder) (prevWrists pl) \<rparr>) st;
          ext = getDist wrist shoulder;
          extensionRatio = ext / scale
      in if speed > PUNCH_SPEED_THRESHOLD \<and> extensionRatio > EXTENSION_THRESHOLD
         then (updPlayer side (\<lambda>pl. pl \<lparr> lastPunchTime := now \<rparr>) st1)
                \<lparr> projectiles := projectiles st1 @ [punchProjectile side wrist rid] \<rparr>
         else st1)"

definition checkHand ::
  "Side \<Rightarrow> HandSide \<Rightarrow> Landmark option \<Rightarrow> Landmark option \<Rightarrow> Landmark option \<Rightarrow> real
     \<Rightarrow> real \<Rightarrow> string \<Rightarrow> GameState \<Rightarrow> GameState outcome" where
  "checkHand side handSide wrist shoulder hip scale now rid st =
     (let playerState = getPlayer side st in
      if isShielding playerState \<or> isCharging playerState \<or> hasSword playerState then Done st
      else if now - lastPunchTime playerState < PUNCH_COOLDOWN then Done st
      else
        deref shoulder st (\<lambda>sh.
        deref hip st (\<lambda>hi.
        deref wrist st (\<lambda>wr.
          if \<not> inHeightBand wr sh hi then Done st
          else Done (handBody side handSide wr sh scale now rid st)))))"

definition detectPunch :: "Side \<Rightarrow> Landmark list \<Rightarrow> Env \<Rightarrow> GameState \<Rightarrow> GameState outcome" where
  "detectPunch side landmarks env st =
     deref (lmAt landmarks 11) st (\<lambda>leftShoulder.
     deref (lmAt landmarks 12) st (\<lambda>rightShoulder.
     deref (lmAt landmarks 23) st (\<lambda>leftHip.
       (let shoulderDist = getDist leftShoulder rightShoulder;
            torsoHeight = getDist leftShoulder leftHip;
            scale = max (max shoulderDist torsoHeight) 0.1
        in obind (checkHand side HLeft (lmAt landmarks 15) (Some leftShoulder) (Some leftHip)
                    scale (nowPunchL env) (idPunchL env) st)
             (checkHand side HRight (lmAt landmarks 16) (Some rightShoulder)
                    (lmAt landmarks 24) scale (nowPunchR env) (idPunchR env))))))"

subsection \<open>processPlayer\<close>

definition bboxStep :: "real \<times> real \<times> real \<times> real \<Rightarrow> Landmark \<Rightarrow> real \<times> real \<times> real \<times> real" where
  "bboxStep acc lm =
     (case acc of (mnX, mnY, mxX, mxY) \<Rightarrow>
        (if lm_x lm < mnX then lm_x lm else mnX,
         if lm_y lm < mnY then lm_y lm else mnY,
         if lm_x lm > mxX then lm_x lm else mxX,
         if lm_y lm > mxY then lm_y lm else mxY))"

definition hitbox :: "Landmark list \<Rightarrow> BBox" where
  "hitbox landmarks =
     (case foldl bboxStep (1, 1, 0, 0) landmarks of (mnX, mnY, mxX, mxY) \<Rightarrow>
        \<lparr> minX = (1 - mxX) * p_width, minY = mnY * p_height,
          maxX = (1 - mnX) * p_width, maxY = mxY * p_height \<rparr>)"

text \<open>
  drawSkeleton only paints, but its shield branch dereferences both hips and both
  shoulders without a guard, so it can throw.
\<close>

definition drawSkeleton :: "Landmark list \<Rightarrow> PlayerState \<Rightarrow> GameState \<Rightarrow> GameState outcome" where
  "drawSkeleton landmarks playerState st =
     (if isShielding playerState \<and> boundingBox playerState \<noteq> None
         \<and> (lmAt landmarks 23 = None \<or> lmAt landmarks 24 = None
            \<or> lmAt landmarks 11 = None \<or> lmAt landmarks 12 = None)
      then Throw TypeError st
      else if hasSword playerState \<and> (lmAt landmarks 15 = None \<or> lmAt landmarks 16 = None)
      then Throw TypeError st
      else if isCharging playerState \<and> (lmAt landmarks 15 = None \<or> lmAt landmarks 16 = None)
      then Throw TypeError st
      else Done st)"

definition processPlayer :: "Side \<Rightarrow> Landmark list \<Rightarrow> Env \<Rightarrow> GameState \<Rightarrow> GameState outcome" where
  "processPlayer side landmarks env st =
     (let st1 = updPlayer side (\<lambda>pl. pl \<lparr> detected := True \<rparr>) st;
          st2 = updPlayer side (\<lambda>pl. pl \<lparr> boundingBox := Some (hitbox landmarks) \<rparr>) st1
      in obind (detectShield side landmarks st2) (\<lambda>st3.
         obind (detectSpecial side landmarks (nowSpecial env) (idSpecial env) st3) (\<lambda>st4.
         obind (detectSword side landmarks (nowSword env) (idSword env) st4) (\<lambda>st5.
         obind (let player = getPlayer side st5 in
                if \<not> isShielding player \<and> \<not> isCharging player \<and> \<not> hasSword player
                then detectPunch side landmarks env st5 else Done st5) (\<lambda>st6.
         drawSkeleton landmarks (getPlayer side st6) st6)))))"


section \<open>Combat simulation\<close>

subsection \<open>updateAI\<close>

definition updateAI :: "GameState \<Rightarrow> GameState" where
  "updateAI st =
     (let y = virtualTargetY st + virtualTargetSpeed st;
          speed = (if y > 0.7 \<or> y < 0.3 then virtualTargetSpeed st * (- 1)
                   else virtualTargetSpeed st);
          xPos = p_width * 0.85;
          yPos = y * p_height;
          size = 120
      in st \<lparr> virtualTargetY := y, virtualTargetSpeed := speed,
              rightPlayer := (rightPlayer st) \<lparr> boundingBox :=
                 Some \<lparr> minX = xPos - size / 2, minY = yPos - size / 2,
                        maxX = xPos + size / 2, maxY = yPos + size / 2 \<rparr> \<rparr> \<rparr>)"

subsection \<open>updateProjectiles\<close>

text \<open>Printing Math.round of a number inside a template string.\<close>

fun showNat :: "nat \<Rightarrow> string" where
  "showNat n =
     (if n < 10 then [char_of (48 + n)]
      else showNat (n div 10) @ [char_of (48 + n mod 10)])"

declare showNat.simps [simp del]

definition showRound :: "real \<Rightarrow> string" where
  "showRound r =
     (let i = \<lfloor>r + 1 / 2\<rfloor>
      in if i < 0 then ''-'' @ showNat (nat (- i)) else showNat (nat i))"

text \<open>array.splice(i, 1)\<close>

definition splice1 :: "nat \<Rightarrow> 'a list \<Rightarrow> 'a list" where
  "splice1 i xs = take i xs @ drop (Suc i) xs"

definition moveProj :: "Projectile \<Rightarrow> Projectile" where
  "moveProj proj =
     proj \<lparr> proj_x := proj_x proj + proj_vx proj, proj_y := proj_y proj + proj_vy proj \<rparr>"

definition outOfBounds :: "Projectile \<Rightarrow> bool" where
  "outOfBounds proj = (proj_x proj < - 100 \<or> proj_x proj > p_width + 100)"

definition targetSide :: "Projectile \<Rightarrow> Side" where
  "targetSide proj = (if owner proj = SLeft then SRight else SLeft)"

definition insideBox :: "Projectile \<Rightarrow> BBox \<Rightarrow> bool" where
  "insideBox proj bbox =
     (let hitPadding = (if ptype proj = Special then 100 else 20)
      in proj_x proj > minX bbox - hitPadding \<and> proj_x proj < maxX bbox + hitPadding
         \<and> proj_y proj > minY bbox - hitPadding \<and> proj_y proj < maxY bbox + hitPadding)"

definition actualDamage :: "Projectile \<Rightarrow> PlayerState \<Rightarrow> real" where
  "actualDamage proj target =
     (if isShielding target then blockDamage proj else damage proj)"

definition hitColor :: "PlayerState \<Rightarrow> string" where
  "hitColor target = (if isShielding target then ''#FFD700'' else ''#ff2222'')"

definition hitText :: "Projectile \<Rightarrow> PlayerState \<Rightarrow> string" where
  "hitText proj target =
     (if isShielding target
      then (if actualDamage proj target = 0 then ''Blocked!''
            else ''Block! -'' @ showRound (actualDamage proj target))
      else ''-'' @ showRound (damage proj))"

text \<open>The branch of the loop body taken when the moved projectile overlaps the hurtbox.\<close>

definition resolveHit :: "(nat \<Rightarrow> string) \<Rightarrow> nat \<Rightarrow> Projectile \<Rightarrow> GameState \<Rightarrow> GameState" where
  "resolveHit rnd i proj st =
     (let target = getPlayer (targetSide proj) st;
          st1 = (if actualDamage proj target > 0
                 then updPlayer (targetSide proj)
                        (\<lambda>pl. pl \<lparr> hp := hp pl - actualDamage proj target \<rparr>) st
                 else st);
          st2 = st1 \<lparr> projectiles := splice1 i (projectiles st1) \<rparr>
      in st2 \<lparr> floatingTexts := floatingTexts st2 @
           [\<lparr> ft_id = rnd i, ft_x = proj_x proj, ft_y = proj_y proj,
              ft_text = hitText proj target, ft_color = hitColor target,
              life = 40, maxLife = 40, ft_vy = - 3 \<rparr>] \<rparr>)"

text \<open>One iteration of the loop of updateProjectiles, at index i.\<close>

definition updStep :: "(nat \<Rightarrow> string) \<Rightarrow> nat \<Rightarrow> GameState \<Rightarrow> GameState" where
  "updStep rnd i st =
     (let proj = moveProj (projectiles st ! i);
          st1 = st \<lparr> projectiles := (projectiles st) [i := proj] \<rparr>
      in if outOfBounds proj then st1 \<lparr> projectiles := splice1 i (projectiles st1) \<rparr>
         else
          (case boundingBox (getPlayer (targetSide proj) st1) of
             None \<Rightarrow> st1
           | Some bbox \<Rightarrow> if insideBox proj bbox then resolveHit rnd i proj st1 else st1))"

text \<open>The loop runs i from length - 1 down to 0; updLoop n runs the indices below n.\<close>

fun updLoop :: "(nat \<Rightarrow> string) \<Rightarrow> nat \<Rightarrow> GameState \<Rightarrow> GameState" where
  "updLoop rnd 0 st = st"
| "updLoop rnd (Suc i) st = updLoop rnd i (updStep rnd i st)"

definition updateProjectiles :: "(nat \<Rightarrow> string) \<Rightarrow> GameState \<Rightarrow> GameState" where
  "updateProjectiles rnd st = updLoop rnd (length (projectiles st)) st"

subsection \<open>updateFloatingText\<close>

definition textStep :: "nat \<Rightarrow> GameState \<Rightarrow> GameState" where
  "textStep i st =
     (let ft0 = floatingTexts st ! i;
          ft = ft0 \<lparr> ft_y := ft_y ft0 + ft_vy ft0, life := life ft0 - 1 \<rparr>;
          st1 = st \<lparr> floatingTexts := (floatingTexts st) [i := ft] \<rparr>
      in if life ft \<le> 0 then st1 \<lparr> floatingTexts := splice1 i (floatingTexts st1) \<rparr>
         else st1)"

fun textLoop :: "nat \<Rightarrow> GameState \<Rightarrow> GameState" where
  "textLoop 0 st = st"
| "textLoop (Suc i) st = textLoop i (textStep i st)"

definition updateFloatingText :: "GameState \<Rightarrow> GameState" where
  "updateFloatingText st = textLoop (length (floatingTexts st)) st"

section \<open>The frame callback p.draw\<close>

text \<open>
  Only the statements of p.draw that touch the game state are modelled; painting and the
  periodic export of health to the overlay are left out.
\<close>

text \<open>results.landmarks.map: the shoulder midpoint of every body, before any is processed.\<close>

fun mkPoses :: "Landmark list list \<Rightarrow> GameState \<Rightarrow> (Landmark list \<times> real) list outcome" where
  "mkPoses [] st = Done []"
| "mkPoses (l # ls) st =
     deref (lmAt l 11) st (\<lambda>a.
     deref (lmAt l 12) st (\<lambda>b.
     obind (mkPoses ls st) (\<lambda>rest. Done ((l, (lm_x a + lm_x b) / 2) # rest))))"

text \<open>poses.forEach, carrying the locals detectedLeft and detectedRight.\<close>

fun forEachPose ::
  "(nat \<Rightarrow> Env) \<Rightarrow> nat \<Rightarrow> (Landmark list \<times> real) list \<Rightarrow> bool \<Rightarrow> bool \<Rightarrow> GameState
     \<Rightarrow> (bool \<times> bool \<times> GameState) outcome" where
  "forEachPose ev k [] detectedLeft detectedRight st = Done (detectedLeft, detectedRight, st)"
| "forEachPose ev k (pose # rest) detectedLeft detectedRight st =
     (let isPlayer1 = (snd pose > 0.5)
      in if isPlayer1
         then obind (processPlayer SLeft (fst pose) (ev k) st)
                (forEachPose ev (Suc k) rest True detectedRight)
         else obind (processPlayer SRight (fst pose) (ev k) st)
                (forEachPose ev (Suc k) rest detectedLeft True))"

definition drawDetect :: "Frame \<Rightarrow> GameState \<Rightarrow> (bool \<times> bool \<times> GameState) outcome" where
  "drawDetect frame st =
     (case poseResults frame of
        None \<Rightarrow> Done (False, False, st)
      | Some ls \<Rightarrow>
          if length ls > 0
          then obind (mkPoses ls st) (\<lambda>poses. forEachPose (envs frame) 0 poses False False st)
          else Done (False, False, st))"

definition undetect :: "PlayerState \<Rightarrow> PlayerState" where
  "undetect player = resetPlayerAction (player \<lparr> detected := False, boundingBox := None \<rparr>)"

text \<open>The handling of the sides no body was assigned to, and of the AI flag.\<close>

definition drawUndetected :: "bool \<Rightarrow> bool \<Rightarrow> GameState \<Rightarrow> GameState" where
  "drawUndetected detectedLeft detectedRight st =
     (let st1 = (if \<not> detectedLeft then st \<lparr> leftPlayer := undetect (leftPlayer st) \<rparr> else st);
          st2 = (if \<not> detectedRight
                 then (if \<not> isAI (rightPlayer st1)
                       then st1 \<lparr> rightPlayer := undetect (rightPlayer st1) \<rparr> else st1)
                 else st1 \<lparr> rightPlayer := (rightPlayer st1) \<lparr> isAI := False \<rparr> \<rparr>)
      in if detectedLeft \<and> \<not> detectedRight
         then st2 \<lparr> rightPlayer := (rightPlayer st2) \<lparr> isAI := True \<rparr> \<rparr> else st2)"

text \<open>
  The rest of the callback: the AI target (aiStep: updateAI when the right player is the
  AI), projectiles, floating texts, game over.
\<close>

definition aiStep :: "GameState \<Rightarrow> GameState" where
  "aiStep st = (if isAI (rightPlayer st) then updateAI st else st)"

definition drawSimulate :: "Frame \<Rightarrow> GameState \<Rightarrow> GameState" where
  "drawSimulate frame st =
     (let st1 = aiStep st;
          st2 = updateProjectiles (textIds frame) st1;
          st3 = updateFloatingText st2
      in if hp (leftPlayer st3) \<le> 0 \<or> hp (rightPlayer st3) \<le> 0
         then st3 \<lparr> isGameOver := True \<rparr> else st3)"

definition draw :: "Frame \<Rightarrow> GameState \<Rightarrow> GameState outcome" where
  "draw frame st =
     (if isGameOver st then Done st
      else obind (drawDetect frame st) (\<lambda>(detectedLeft, detectedRight, st1).
             Done (drawSimulate frame (drawUndetected detectedLeft detectedRight st1))))"

text \<open>
  The slot that poses.forEach assigns a body to, from the shoulder midpoint computed by
  results.landmarks.map: the left player when centerX exceeds 0.5, else the right player.
\<close>

definition sideOf :: "Landmark list \<Rightarrow> Side" where
  "sideOf landmarks =
     (if (lm_x (landmarks ! 11) + lm_x (landmarks ! 12)) / 2 > 0.5 then SLeft else SRight)"

section \<open>Reachable states\<close>

text \<open>
  The states the game can be in between two frame callbacks: the initial state, the state
  after a callback on any input (also when the callback threw), and the state after the
  reset button.
\<close>

inductive reachable :: "GameState \<Rightarrow> bool" where
  r_init: "reachable initState"
| r_tick: "reachable st \<Longrightarrow> draw frame st = Done st' \<Longrightarrow> reachable st'"
| r_throw: "reachable st \<Longrightarrow> draw frame st = Throw e st' \<Longrightarrow> reachable st'"
| r_reset: "reachable st \<Longrightarrow> reachable (resetGame st)"

text \<open>
  The states reached through callbacks that returned (none threw) and through the reset
  button.
\<close>

inductive completed :: "GameState \<Rightarrow> bool" where
  c_init: "completed initState"
| c_tick: "completed st \<Longrightarrow> draw frame st = Done st' \<Longrightarrow> completed st'"
| c_reset: "completed st \<Longrightarrow> completed (resetGame st)"



section \<open>Predicates of the statements\<close>

subsection \<open>Outcomes and invariants of the atomic steps\<close>

text \<open>An outcome satisfies Q when it returned and P when it threw.\<close>

definition holdsOut :: "('a \<Rightarrow> bool) \<Rightarrow> (GameState \<Rightarrow> bool) \<Rightarrow> 'a outcome \<Rightarrow> bool" where
  "holdsOut Q P out = (case out of Done a \<Rightarrow> Q a | Throw e st \<Rightarrow> P st)"

text \<open>
  A time-indexed state predicate P is closed under the state updates the callback is made
  of. R relates a time bound to a later clock reading (it is always true for a predicate
  that ignores time). Every invariant below is shown closed once, and then holds along
  p.draw.
\<close>

definition stepClosed :: "(real \<Rightarrow> real \<Rightarrow> bool) \<Rightarrow> (real \<Rightarrow> GameState \<Rightarrow> bool) \<Rightarrow> bool" where
  "stepClosed R P \<longleftrightarrow>
     (\<forall>T T' st. R T T' \<longrightarrow> P T st \<longrightarrow> P T' st)
   \<and> (\<forall>T side st. P T st \<longrightarrow> P T (updPlayer side (\<lambda>pl. pl \<lparr> detected := True \<rparr>) st))
   \<and> (\<forall>T side b st. P T st \<longrightarrow> P T (updPlayer side (\<lambda>pl. pl \<lparr> boundingBox := Some b \<rparr>) st))
   \<and> (\<forall>T side lw rw ls rs st. P T st \<longrightarrow> P T (shieldBody side lw rw ls rs st))
   \<and> (\<forall>T now side lw rw ls rs rid st. R T now \<longrightarrow> P T st \<longrightarrow>
          P now (specialBody side lw rw ls rs now rid st))
   \<and> (\<forall>T side st. P T st \<longrightarrow> P T (updPlayer side (\<lambda>pl. pl \<lparr> hasSword := False \<rparr>) st))
   \<and> (\<forall>T side lw rw now rid st. P T st \<longrightarrow> \<not> isShielding (getPlayer side st) \<longrightarrow>
          \<not> isCharging (getPlayer side st) \<longrightarrow> P T (swordBody side lw rw now rid st))
   \<and> (\<forall>T side hs wr sh scale now rid st. P T st \<longrightarrow>
          P T (handBody side hs wr sh scale now rid st))
   \<and> (\<forall>T st. P T st \<longrightarrow> P T (st \<lparr> leftPlayer := undetect (leftPlayer st) \<rparr>))
   \<and> (\<forall>T st. P T st \<longrightarrow> P T (st \<lparr> rightPlayer := undetect (rightPlayer st) \<rparr>))
   \<and> (\<forall>T b st. P T st \<longrightarrow> P T (st \<lparr> rightPlayer := (rightPlayer st) \<lparr> isAI := b \<rparr> \<rparr>))
   \<and> (\<forall>T st. P T st \<longrightarrow> P T (updateAI st))
   \<and> (\<forall>T rnd i st. P T st \<longrightarrow> i < length (projectiles st) \<longrightarrow> P T (updStep rnd i st))
   \<and> (\<forall>T i st. P T st \<longrightarrow> i < length (floatingTexts st) \<longrightarrow> P T (textStep i st))
   \<and> (\<forall>T st. P T st \<longrightarrow> P T (st \<lparr> isGameOver := True \<rparr>))"

subsection \<open>Action flags\<close>

definition excl :: "PlayerState \<Rightarrow> bool" where
  "excl pl = (hasSword pl \<longrightarrow> \<not> isShielding pl \<and> \<not> isCharging pl)"


text \<open>While the right player is the AI target it carries no charge.\<close>

definition aiIdle :: "GameState \<Rightarrow> bool" where
  "aiIdle st =
     (isAI (rightPlayer st) \<longrightarrow>
        \<not> isCharging (rightPlayer st) \<and> chargeLevel (rightPlayer st) = 0)"

subsection \<open>The special charge\<close>

text \<open>
  The value of isHoldingPose that detectSpecial computes in a call of processPlayer, in
  terms of the state before the call: the raw asymmetric pose, no shield geometry on this
  tick, and no sword stance left from the tick before.
\<close>

definition poseHeld :: "PlayerState \<Rightarrow> Landmark list \<Rightarrow> bool" where
  "poseHeld playerState landmarks =
     (isSpecialPoseRaw (landmarks ! 15) (landmarks ! 16) (landmarks ! 11) (landmarks ! 12)
      \<and> \<not> shieldPose (landmarks ! 15) (landmarks ! 16) (landmarks ! 11) (landmarks ! 12)
      \<and> \<not> hasSword playerState)"

definition specialsOf :: "GameState \<Rightarrow> Projectile list" where
  "specialsOf st = filter (\<lambda>q. ptype q = Special) (projectiles st)"

definition chargeKept :: "Side \<Rightarrow> Projectile list \<Rightarrow> bool \<Rightarrow> real \<Rightarrow> GameState \<Rightarrow> bool" where
  "chargeKept side X c v st =
     (specialsOf st = X \<and> isCharging (getPlayer side st) = c \<and> chargeLevel (getPlayer side st) = v)"

text \<open>The part of processPlayer that follows detectSpecial.\<close>

definition afterSpecial :: "Side \<Rightarrow> Landmark list \<Rightarrow> Env \<Rightarrow> GameState \<Rightarrow> GameState outcome" where
  "afterSpecial side landmarks env st4 =
     obind (detectSword side landmarks (nowSword env) (idSword env) st4) (\<lambda>st5.
     obind (let player = getPlayer side st5 in
            if \<not> isShielding player \<and> \<not> isCharging player \<and> \<not> hasSword player
            then detectPunch side landmarks env st5 else Done st5) (\<lambda>st6.
     drawSkeleton landmarks (getPlayer side st6) st6))"






subsection \<open>Partial landmark arrays\<close>

text \<open>
  What processPlayer leaves of a body in its slot: the player is marked detected, carries
  the hurtbox of the body, and its shield flag is the shield geometry of the body.
\<close>

definition classified :: "Side \<Rightarrow> Landmark list \<Rightarrow> GameState \<Rightarrow> bool" where
  "classified side landmarks st =
     (detected (getPlayer side st)
      \<and> boundingBox (getPlayer side st) = Some (hitbox landmarks)
      \<and> isShielding (getPlayer side st)
          = shieldPose (landmarks ! 15) (landmarks ! 16) (landmarks ! 11) (landmarks ! 12))"

text \<open>
  When processPlayer returns on a body that has both wrists but lacks a hip, in terms of
  the player it leaves: the shield is not drawn (drawSkeleton reads both hips for it), and
  the hip is not read by the punch check either, because the player is charging or in the
  sword stance (detectPunch is skipped) or, when only the right hip is missing, because
  the right hand is checked inside the punch cooldown.
\<close>

definition returnsNoHip :: "Landmark list \<Rightarrow> Env \<Rightarrow> PlayerState \<Rightarrow> bool" where
  "returnsNoHip landmarks env player =
     (\<not> isShielding player
      \<and> (isCharging player \<or> hasSword player
         \<or> (length landmarks = 24 \<and> nowPunchR env - lastPunchTime player < PUNCH_COOLDOWN)))"

subsection \<open>Punches\<close>



subsection \<open>Projectiles\<close>

text \<open>The collision test of updateProjectiles; no test when the target has no hurtbox.\<close>

definition collides :: "GameState \<Rightarrow> Projectile \<Rightarrow> bool" where
  "collides st q =
     (case boundingBox (getPlayer (targetSide q) st) of
        None \<Rightarrow> False | Some bbox \<Rightarrow> insideBox q bbox)"

definition survives :: "GameState \<Rightarrow> Projectile \<Rightarrow> bool" where
  "survives st q = (\<not> outOfBounds q \<and> \<not> collides st q)"

definition hitsOn :: "GameState \<Rightarrow> Side \<Rightarrow> Projectile \<Rightarrow> bool" where
  "hitsOn st s q = (\<not> outOfBounds q \<and> collides st q \<and> targetSide q = s)"

text \<open>What a hit takes from the target's health: nothing when the damage is not positive.\<close>

definition appliedDamage :: "GameState \<Rightarrow> Side \<Rightarrow> Projectile \<Rightarrow> real" where
  "appliedDamage st s q = max 0 (actualDamage q (getPlayer s st))"

definition ownedBy :: "Side \<Rightarrow> GameState \<Rightarrow> Projectile list" where
  "ownedBy side st = filter (\<lambda>q. owner q = side) (projectiles st)"

definition sideKept :: "Side \<Rightarrow> PlayerState \<Rightarrow> Projectile list \<Rightarrow> GameState \<Rightarrow> bool" where
  "sideKept side pl ps st = (getPlayer side st = pl \<and> ownedBy side st = ps)"

text \<open>
  The damage table as the specification words it (kind, then whether the target shields):
  standard 2/0, special 10/3, sword 3/1. It is compared with the values the code applies.
\<close>

definition specDamage :: "AttackKind \<Rightarrow> bool \<Rightarrow> real" where
  "specDamage k shielded =
     (case k of
        Standard \<Rightarrow> (if shielded then 0 else 2)
      | Special \<Rightarrow> (if shielded then 3 else 10)
      | Sword \<Rightarrow> (if shielded then 1 else 3))"

definition conforms :: "Projectile \<Rightarrow> bool" where
  "conforms q = (damage q = specDamage (ptype q) False \<and> blockDamage q = specDamage (ptype q) True)"

definition allConform :: "GameState \<Rightarrow> bool" where
  "allConform st = list_all conforms (projectiles st)"

section \<open>Concrete inputs\<close>

text \<open>
  Inputs at which the theorems are evaluated. A body has the 33 landmarks of the pose
  estimator; only the shoulders (11, 12), wrists (15, 16) and hips (23, 24) matter.
\<close>

definition mkLandmark :: "real \<Rightarrow> real \<Rightarrow> Landmark" where
  "mkLandmark a b = \<lparr> lm_x = a, lm_y = b, lm_z = 0 \<rparr>"

definition body ::
  "Landmark \<Rightarrow> Landmark \<Rightarrow> Landmark \<Rightarrow> Landmark \<Rightarrow> Landmark \<Rightarrow> Landmark \<Rightarrow> Landmark list" where
  "body leftShoulder rightShoulder leftWrist rightWrist leftHip rightHip =
     replicate 11 leftShoulder @ [leftShoulder, rightShoulder] @ replicate 2 leftShoulder
     @ [leftWrist, rightWrist] @ replicate 6 leftHip @ [leftHip, rightHip]
     @ replicate 8 leftHip"

text \<open>Every clock reading of a call is t.\<close>

definition envAt :: "real \<Rightarrow> Env" where
  "envAt t = \<lparr> nowSpecial = t, nowSword = t, nowPunchL = t, nowPunchR = t,
               idSpecial = ''s'', idSword = ''w'', idPunchL = ''l'', idPunchR = ''r'' \<rparr>"

definition frameAt :: "Landmark list list \<Rightarrow> real \<Rightarrow> Frame" where
  "frameAt poses t = \<lparr> poseResults = Some poses, envs = (\<lambda>k. envAt t), textIds = (\<lambda>i. ''t'') \<rparr>"

fun stateOf :: "GameState outcome \<Rightarrow> GameState" where
  "stateOf (Done st) = st"
| "stateOf (Throw e st) = st"

text \<open>The state after a sequence of frame callbacks.\<close>

fun run :: "Frame list \<Rightarrow> GameState \<Rightarrow> GameState" where
  "run [] st = st"
| "run (f # fs) st = run fs (stateOf (draw f st))"

text \<open>The state after a sequence of calls of processPlayer for one side.\<close>

fun runPlayer :: "Side \<Rightarrow> (Landmark list \<times> real) list \<Rightarrow> GameState \<Rightarrow> GameState" where
  "runPlayer side [] st = st"
| "runPlayer side (input # rest) st =
     runPlayer side rest (stateOf (processPlayer side (fst input) (envAt (snd input)) st))"

text \<open>Left wrist above its shoulder, right wrist below its shoulder, both far from them.\<close>

definition chargePose :: "Landmark list" where
  "chargePose = body (mkLandmark 0.6 0.3) (mkLandmark 0.7 0.3) (mkLandmark 0.6 0)
                  (mkLandmark 0.7 0.6) (mkLandmark 0.6 0.7) (mkLandmark 0.7 0.7)"



text \<open>Both arms stretched sideways at shoulder height.\<close>

definition twoPunchPose :: "Landmark list" where
  "twoPunchPose = body (mkLandmark 0.5 0.5) (mkLandmark 0.55 0.5) (mkLandmark 0.1 0.5)
                    (mkLandmark 0.95 0.5) (mkLandmark 0.5 0.9) (mkLandmark 0.55 0.9)"

text \<open>The same, the left wrist 0.05 nearer to its shoulder.\<close>

definition nearPunchPose :: "Landmark list" where
  "nearPunchPose = body (mkLandmark 0.5 0.5) (mkLandmark 0.55 0.5) (mkLandmark 0.15 0.5)
                    (mkLandmark 0.95 0.5) (mkLandmark 0.5 0.9) (mkLandmark 0.55 0.9)"

text \<open>The left arm stretched, at the height of the AI target.\<close>

definition hitPose :: "Landmark list" where
  "hitPose = body (mkLandmark 0.6 0.5) (mkLandmark 0.7 0.5) (mkLandmark 0.2 0.5)
               (mkLandmark 0.7 0.5) (mkLandmark 0.6 0.9) (mkLandmark 0.7 0.9)"

text \<open>A landmark array that ends before the wrists.\<close>

definition shortPose :: "Landmark list" where
  "shortPose = replicate 13 (mkLandmark 0.6 0.5)"

text \<open>A punch of the right player in flight; the left player has no hurtbox.\<close>

definition incomingState :: GameState where
  "incomingState =
     initState \<lparr> projectiles := [punchProjectile SRight (mkLandmark 0.5 0.5) ''r''] \<rparr>"

text \<open>Two punches of the left player in flight, the second 5 pixels from the margin.\<close>

definition flyingState :: GameState where
  "flyingState =
     initState \<lparr> projectiles :=
       [punchProjectile SLeft (mkLandmark 0.5 0.5) ''a'',
        (punchProjectile SLeft (mkLandmark 0.5 0.5) ''b'') \<lparr> proj_x := 1375 \<rparr>] \<rparr>"

section \<open>Basic facts\<close>

lemmas const_defs =
  MAX_HP_def PUNCH_COOLDOWN_def PROJECTILE_SPEED_def SPECIAL_SPEED_def
  EXTENSION_THRESHOLD_def PUNCH_SPEED_THRESHOLD_def SHIELD_THRESHOLD_def
  SPECIAL_CHARGE_TIME_def CHARGE_GRACE_PERIOD_def SWORD_ACTIVATION_DIST_def
  SWORD_HEIGHT_THRESHOLD_def SWORD_SWING_THRESHOLD_def SWORD_COOLDOWN_def
  DAMAGE_STANDARD_def DAMAGE_SPECIAL_def DAMAGE_SPECIAL_BLOCK_def DAMAGE_SWORD_def
  DAMAGE_SWORD_BLOCK_def CANVAS_WIDTH_def CANVAS_HEIGHT_def p_width_def p_height_def

lemma getPlayer_updPlayer [simp]:
  "getPlayer s (updPlayer s' f st) = (if s = s' then f (getPlayer s st) else getPlayer s st)"
  by (cases s; cases s') (simp_all add: getPlayer_def updPlayer_def setPlayer_def)

lemma getPlayer_setPlayer [simp]:
  "getPlayer s (setPlayer s' pl st) = (if s = s' then pl else getPlayer s st)"
  by (cases s; cases s') (simp_all add: getPlayer_def setPlayer_def)

lemma updPlayer_fields [simp]:
  "projectiles (updPlayer s f st) = projectiles st"
  "floatingTexts (updPlayer s f st) = floatingTexts st"
  "isGameOver (updPlayer s f st) = isGameOver st"
  "virtualTargetY (updPlayer s f st) = virtualTargetY st"
  "virtualTargetSpeed (updPlayer s f st) = virtualTargetSpeed st"
  by (cases s; simp add: updPlayer_def setPlayer_def)+

lemma setPlayer_fields [simp]:
  "projectiles (setPlayer s pl st) = projectiles st"
  "floatingTexts (setPlayer s pl st) = floatingTexts st"
  "isGameOver (setPlayer s pl st) = isGameOver st"
  by (cases s; simp add: setPlayer_def)+

lemma getPlayer_fields_upd [simp]:
  "getPlayer s (st \<lparr> projectiles := ps \<rparr>) = getPlayer s st"
  "getPlayer s (st \<lparr> floatingTexts := fs \<rparr>) = getPlayer s st"
  "getPlayer s (st \<lparr> isGameOver := b \<rparr>) = getPlayer s st"
  "getPlayer s (st \<lparr> virtualTargetY := y \<rparr>) = getPlayer s st"
  "getPlayer s (st \<lparr> virtualTargetSpeed := v \<rparr>) = getPlayer s st"
  by (cases s; simp add: getPlayer_def)+

lemma getPlayer_player_upd [simp]:
  "getPlayer s (st \<lparr> leftPlayer := pl \<rparr>) = (if s = SLeft then pl else getPlayer s st)"
  "getPlayer s (st \<lparr> rightPlayer := pl \<rparr>) = (if s = SRight then pl else getPlayer s st)"
  by (cases s; simp add: getPlayer_def)+

lemma players_as_getPlayer:
  "leftPlayer st = getPlayer SLeft st" "rightPlayer st = getPlayer SRight st"
  by (simp_all add: getPlayer_def)

lemma setPlayer_target [simp]:
  "virtualTargetY (setPlayer s pl st) = virtualTargetY st"
  "virtualTargetSpeed (setPlayer s pl st) = virtualTargetSpeed st"
  by (cases s; simp add: setPlayer_def)+

lemma getPlayer_gameOver [simp]: "isGameOver (st \<lparr> leftPlayer := pl \<rparr>) = isGameOver st"
   "isGameOver (st \<lparr> rightPlayer := pl \<rparr>) = isGameOver st"
  by simp_all

lemma lmAt_Some: "i < length lms \<Longrightarrow> lmAt lms i = Some (lms ! i)"
  by (simp add: lmAt_def)

lemma lmAt_None: "length lms \<le> i \<Longrightarrow> lmAt lms i = None"
  by (simp add: lmAt_def)

lemma deref_simps [simp]:
  "deref (Some l) st k = k l" "deref None st k = Throw TypeError st"
  by (simp_all add: deref_def)

lemma holdsOut_simps [simp]:
  "holdsOut Q P (Done a) = Q a" "holdsOut Q P (Throw e st) = P st"
  by (simp_all add: holdsOut_def)

lemma holdsOut_obind:
  "holdsOut Q P m \<Longrightarrow> (\<And>a. Q a \<Longrightarrow> holdsOut R P (f a)) \<Longrightarrow> holdsOut R P (obind m f)"
  by (cases m) simp_all

lemma holdsOut_deref:
  "P st \<Longrightarrow> (\<And>l. holdsOut Q P (k l)) \<Longrightarrow> holdsOut Q P (deref lm st k)"
  by (cases lm) (simp_all add: deref_def)

lemma holdsOut_mono:
  "holdsOut Q P m \<Longrightarrow> (\<And>a. Q a \<Longrightarrow> Q' a) \<Longrightarrow> (\<And>s. P s \<Longrightarrow> P' s) \<Longrightarrow> holdsOut Q' P' m"
  by (cases m) simp_all

lemma splice1_update [simp]: "splice1 i (xs[i := x]) = splice1 i xs"
  by (simp add: splice1_def)

lemma length_splice1: "i < length xs \<Longrightarrow> length (splice1 i xs) = length xs - 1"
  by (simp add: splice1_def)

section \<open>Effects of the steps on players and projectiles\<close>

lemma shieldBody_player:
  "getPlayer s (shieldBody side lw rw ls rs st) =
     (if s = side
      then (if shieldPose lw rw ls rs
            then (getPlayer s st) \<lparr> isShielding := True, hasSword := False \<rparr>
            else (getPlayer s st) \<lparr> isShielding := False \<rparr>)
      else getPlayer s st)"
  by (simp add: shieldBody_def)

lemma shieldBody_projectiles [simp]:
  "projectiles (shieldBody side lw rw ls rs st) = projectiles st"
  by (simp add: shieldBody_def)

lemma specialBody_detected [simp]:
  "detected (getPlayer s (specialBody side lw rw ls rs now rid st)) = detected (getPlayer s st)"
  by (simp add: specialBody_def Let_def fireSpecial_def)

lemma swordBody_detected [simp]:
  "detected (getPlayer s (swordBody side lw rw now rid st)) = detected (getPlayer s st)"
  by (simp add: swordBody_def Let_def)

lemma handBody_detected [simp]:
  "detected (getPlayer s (handBody side hs wr sh scale now rid st)) = detected (getPlayer s st)"
  by (simp add: handBody_def Let_def)

lemma resolveHit_projectiles [simp]:
  "projectiles (resolveHit rnd i q st) = splice1 i (projectiles st)"
  by (simp add: resolveHit_def Let_def)

lemma resolveHit_player:
  "getPlayer s (resolveHit rnd i q st) =
     (if s = targetSide q \<and> actualDamage q (getPlayer s st) > 0
      then (getPlayer s st) \<lparr> hp := hp (getPlayer s st) - actualDamage q (getPlayer s st) \<rparr>
      else getPlayer s st)"
  by (auto simp add: resolveHit_def Let_def)

lemma updStep_projectiles:
  "projectiles (updStep rnd i st) =
     (if outOfBounds (moveProj (projectiles st ! i)) \<or> collides st (moveProj (projectiles st ! i))
      then splice1 i (projectiles st)
      else (projectiles st) [i := moveProj (projectiles st ! i)])"
  by (simp add: updStep_def Let_def collides_def split: option.splits)

lemma updStep_length:
  "i < length (projectiles st) \<Longrightarrow> i \<le> length (projectiles (updStep rnd i st))"
  by (auto simp add: updStep_projectiles length_splice1)

lemma updStep_player:
  "getPlayer s (updStep rnd i st) =
     (if \<not> outOfBounds (moveProj (projectiles st ! i))
         \<and> collides st (moveProj (projectiles st ! i))
         \<and> s = targetSide (moveProj (projectiles st ! i))
         \<and> actualDamage (moveProj (projectiles st ! i)) (getPlayer s st) > 0
      then (getPlayer s st) \<lparr> hp := hp (getPlayer s st)
                - actualDamage (moveProj (projectiles st ! i)) (getPlayer s st) \<rparr>
      else getPlayer s st)"
  by (auto simp add: updStep_def Let_def collides_def resolveHit_player split: option.splits)

lemma textStep_length:
  "i < length (floatingTexts st) \<Longrightarrow> i \<le> length (floatingTexts (textStep i st))"
  by (auto simp add: textStep_def Let_def length_splice1)

lemma textStep_player [simp]: "getPlayer s (textStep i st) = getPlayer s st"
  by (simp add: textStep_def Let_def)

lemma textStep_projectiles [simp]: "projectiles (textStep i st) = projectiles st"
  by (simp add: textStep_def Let_def)

lemma textLoop_player [simp]: "getPlayer s (textLoop n st) = getPlayer s st"
  by (induction n arbitrary: st) simp_all

lemma textLoop_projectiles [simp]: "projectiles (textLoop n st) = projectiles st"
  by (induction n arbitrary: st) simp_all


lemma updateAI_projectiles [simp]: "projectiles (updateAI st) = projectiles st"
  by (simp add: updateAI_def Let_def)

lemma updateAI_fields [simp]:
  "floatingTexts (updateAI st) = floatingTexts st" "isGameOver (updateAI st) = isGameOver st"
  by (simp_all add: updateAI_def Let_def)

lemma updateAI_get [simp]:
  "getPlayer SLeft (updateAI st) = getPlayer SLeft st"
  "isShielding (getPlayer s (updateAI st)) = isShielding (getPlayer s st)"
  "isCharging (getPlayer s (updateAI st)) = isCharging (getPlayer s st)"
  "hasSword (getPlayer s (updateAI st)) = hasSword (getPlayer s st)"
  "hp (getPlayer s (updateAI st)) = hp (getPlayer s st)"
  "chargeLevel (getPlayer s (updateAI st)) = chargeLevel (getPlayer s st)"
  by (cases s; simp add: updateAI_def Let_def getPlayer_def)+

lemma updateAI_get2 [simp]:
  "isAI (getPlayer s (updateAI st)) = isAI (getPlayer s st)"
  "detected (getPlayer s (updateAI st)) = detected (getPlayer s st)"
  "lastPoseTime (getPlayer s (updateAI st)) = lastPoseTime (getPlayer s st)"
  "chargeStartTime (getPlayer s (updateAI st)) = chargeStartTime (getPlayer s st)"
  "lastPunchTime (getPlayer s (updateAI st)) = lastPunchTime (getPlayer s st)"
  "prevWrists (getPlayer s (updateAI st)) = prevWrists (getPlayer s st)"
  "prevSwordY (getPlayer s (updateAI st)) = prevSwordY (getPlayer s st)"
  "lastSwordFireTime (getPlayer s (updateAI st)) = lastSwordFireTime (getPlayer s st)"
  by (cases s; simp add: updateAI_def Let_def getPlayer_def)+

lemma updateAI_box:
  "boundingBox (getPlayer SRight (updateAI st)) =
     Some \<lparr> minX = p_width * 0.85 - 60,
            minY = (virtualTargetY st + virtualTargetSpeed st) * p_height - 60,
            maxX = p_width * 0.85 + 60,
            maxY = (virtualTargetY st + virtualTargetSpeed st) * p_height + 60 \<rparr>"
  by (simp add: updateAI_def Let_def getPlayer_def)

lemma aiStep_projectiles [simp]: "projectiles (aiStep st) = projectiles st"
  by (simp add: aiStep_def)

lemma drawUndetected_projectiles [simp]:
  "projectiles (drawUndetected dl dr st) = projectiles st"
  by (simp add: drawUndetected_def Let_def)

lemma processPlayer_Done_length:
  "processPlayer side lms env st = Done st' \<Longrightarrow> 17 \<le> length lms"
  by (rule ccontr) (simp add: processPlayer_def Let_def detectShield_def lmAt_def deref_def split: if_splits)

lemma processPlayer_unfold:
  assumes len: "17 \<le> length lms"
  shows "processPlayer side lms env st =
     afterSpecial side lms env
       (specialBody side (lms ! 15) (lms ! 16) (lms ! 11) (lms ! 12)
          (nowSpecial env) (idSpecial env)
          (shieldBody side (lms ! 15) (lms ! 16) (lms ! 11) (lms ! 12)
             (updPlayer side (\<lambda>pl. pl \<lparr> boundingBox := Some (hitbox lms) \<rparr>)
                (updPlayer side (\<lambda>pl. pl \<lparr> detected := True \<rparr>) st))))"
  using len
  by (simp add: processPlayer_def afterSpecial_def Let_def detectShield_def detectSpecial_def
        lmAt_Some)

section \<open>Invariants along the frame callback\<close>

lemma sc_mono:
  assumes "stepClosed R P"
  shows "R T T' \<Longrightarrow> P T st \<Longrightarrow> P T' st"
  by (rule assms[unfolded stepClosed_def, THEN conjunct1, rule_format])

lemma sc_detected:
  assumes "stepClosed R P"
  shows "P T st \<Longrightarrow> P T (updPlayer side (\<lambda>pl. pl \<lparr> detected := True \<rparr>) st)"
  by (rule assms[unfolded stepClosed_def, THEN conjunct2, THEN conjunct1, rule_format])

lemma sc_bbox:
  assumes "stepClosed R P"
  shows "P T st \<Longrightarrow> P T (updPlayer side (\<lambda>pl. pl \<lparr> boundingBox := Some b \<rparr>) st)"
  by (rule assms[unfolded stepClosed_def, THEN conjunct2, THEN conjunct2, THEN conjunct1, rule_format])

lemma sc_shield:
  assumes "stepClosed R P"
  shows "P T st \<Longrightarrow> P T (shieldBody side lw rw ls rs st)"
  by (rule assms[unfolded stepClosed_def, THEN conjunct2, THEN conjunct2, THEN conjunct2, THEN conjunct1, rule_format])

lemma sc_special:
  assumes "stepClosed R P"
  shows "R T now \<Longrightarrow> P T st \<Longrightarrow> P now (specialBody side lw rw ls rs now rid st)"
  by (rule assms[unfolded stepClosed_def, THEN conjunct2, THEN conjunct2, THEN conjunct2, THEN conjunct2, THEN conjunct1, rule_format])

lemma sc_swordOff:
  assumes "stepClosed R P"
  shows "P T st \<Longrightarrow> P T (updPlayer side (\<lambda>pl. pl \<lparr> hasSword := False \<rparr>) st)"
  by (rule assms[unfolded stepClosed_def, THEN conjunct2, THEN conjunct2, THEN conjunct2, THEN conjunct2, THEN conjunct2, THEN conjunct1, rule_format])

lemma sc_sword:
  assumes "stepClosed R P"
  shows "P T st \<Longrightarrow> \<not> isShielding (getPlayer side st) \<Longrightarrow>
          \<not> isCharging (getPlayer side st) \<Longrightarrow> P T (swordBody side lw rw now rid st)"
  by (rule assms[unfolded stepClosed_def, THEN conjunct2, THEN conjunct2, THEN conjunct2, THEN conjunct2, THEN conjunct2, THEN conjunct2, THEN conjunct1, rule_format])

lemma sc_hand:
  assumes "stepClosed R P"
  shows "P T st \<Longrightarrow> P T (handBody side hs wr sh scale now rid st)"
  by (rule assms[unfolded stepClosed_def, THEN conjunct2, THEN conjunct2, THEN conjunct2, THEN conjunct2, THEN conjunct2, THEN conjunct2, THEN conjunct2, THEN conjunct1, rule_format])

lemma sc_undetectL:
  assumes "stepClosed R P"
  shows "P T st \<Longrightarrow> P T (st \<lparr> leftPlayer := undetect (leftPlayer st) \<rparr>)"
  by (rule assms[unfolded stepClosed_def, THEN conjunct2, THEN conjunct2, THEN conjunct2, THEN conjunct2, THEN conjunct2, THEN conjunct2, THEN conjunct2, THEN conjunct2, THEN conjunct1, rule_format])

lemma sc_undetectR:
  assumes "stepClosed R P"
  shows "P T st \<Longrightarrow> P T (st \<lparr> rightPlayer := undetect (rightPlayer st) \<rparr>)"
  by (rule assms[unfolded stepClosed_def, THEN conjunct2, THEN conjunct2, THEN conjunct2, THEN conjunct2, THEN conjunct2, THEN conjunct2, THEN conjunct2, THEN conjunct2, THEN conjunct2, THEN conjunct1, rule_format])

lemma sc_ai:
  assumes "stepClosed R P"
  shows "P T st \<Longrightarrow> P T (st \<lparr> rightPlayer := (rightPlayer st) \<lparr> isAI := ai \<rparr> \<rparr>)"
  by (rule assms[unfolded stepClosed_def, THEN conjunct2, THEN conjunct2, THEN conjunct2, THEN conjunct2, THEN conjunct2, THEN conjunct2, THEN conjunct2, THEN conjunct2, THEN conjunct2, THEN conjunct2, THEN conjunct1, rule_format])

lemma sc_updateAI:
  assumes "stepClosed R P"
  shows "P T st \<Longrightarrow> P T (updateAI st)"
  by (rule assms[unfolded stepClosed_def, THEN conjunct2, THEN conjunct2, THEN conjunct2, THEN conjunct2, THEN conjunct2, THEN conjunct2, THEN conjunct2, THEN conjunct2, THEN conjunct2, THEN conjunct2, THEN conjunct2, THEN conjunct1, rule_format])

lemma sc_updStep:
  assumes "stepClosed R P"
  shows "P T st \<Longrightarrow> i < length (projectiles st) \<Longrightarrow> P T (updStep rnd i st)"
  by (rule assms[unfolded stepClosed_def, THEN conjunct2, THEN conjunct2, THEN conjunct2, THEN conjunct2, THEN conjunct2, THEN conjunct2, THEN conjunct2, THEN conjunct2, THEN conjunct2, THEN conjunct2, THEN conjunct2, THEN conjunct2, THEN conjunct1, rule_format])

lemma sc_textStep:
  assumes "stepClosed R P"
  shows "P T st \<Longrightarrow> j < length (floatingTexts st) \<Longrightarrow> P T (textStep j st)"
  by (rule assms[unfolded stepClosed_def, THEN conjunct2, THEN conjunct2, THEN conjunct2, THEN conjunct2, THEN conjunct2, THEN conjunct2, THEN conjunct2, THEN conjunct2, THEN conjunct2, THEN conjunct2, THEN conjunct2, THEN conjunct2, THEN conjunct2, THEN conjunct1, rule_format])

lemma sc_gameOver:
  assumes "stepClosed R P"
  shows "P T st \<Longrightarrow> P T (st \<lparr> isGameOver := True \<rparr>)"
  by (rule assms[unfolded stepClosed_def, THEN conjunct2, THEN conjunct2, THEN conjunct2, THEN conjunct2, THEN conjunct2, THEN conjunct2, THEN conjunct2, THEN conjunct2, THEN conjunct2, THEN conjunct2, THEN conjunct2, THEN conjunct2, THEN conjunct2, THEN conjunct2, rule_format])

lemma detectShield_closed:
  "stepClosed R P \<Longrightarrow> P T st \<Longrightarrow> holdsOut (P T) (P T) (detectShield side lms st)"
  unfolding detectShield_def
  by (intro holdsOut_deref) (simp_all add: sc_shield)

lemma detectSpecial_closed:
  "stepClosed R P \<Longrightarrow> R T now \<Longrightarrow> P T st \<Longrightarrow>
     holdsOut (P now) (P now) (detectSpecial side lms now rid st)"
  unfolding detectSpecial_def
  by (intro holdsOut_deref) (auto intro: sc_special sc_mono)

lemma detectSword_closed:
  "stepClosed R P \<Longrightarrow> P T st \<Longrightarrow> holdsOut (P T) (P T) (detectSword side lms now rid st)"
  unfolding detectSword_def Let_def
  by (auto intro!: holdsOut_deref intro: sc_swordOff sc_sword)

lemma checkHand_closed:
  "stepClosed R P \<Longrightarrow> P T st \<Longrightarrow>
     holdsOut (P T) (P T) (checkHand side hs wrist shoulder hip scale now rid st)"
  unfolding checkHand_def Let_def
  by (auto intro!: holdsOut_deref intro: sc_hand)

lemma detectPunch_closed:
  "stepClosed R P \<Longrightarrow> P T st \<Longrightarrow> holdsOut (P T) (P T) (detectPunch side lms env st)"
  unfolding detectPunch_def Let_def
  by (intro holdsOut_deref holdsOut_obind[where Q="P T"] checkHand_closed) simp_all

lemma drawSkeleton_closed:
  "P st \<Longrightarrow> holdsOut P P (drawSkeleton lms pl st)"
  by (simp add: drawSkeleton_def)

lemma processPlayer_closed:
  assumes sc: "stepClosed R P" and r: "R T (nowSpecial env)" and p: "P T st"
  shows "holdsOut (P (nowSpecial env)) (P (nowSpecial env)) (processPlayer side lms env st)"
proof -
  let ?n = "nowSpecial env"
  let ?st2 = "updPlayer side (\<lambda>pl. pl \<lparr> boundingBox := Some (hitbox lms) \<rparr>)
                (updPlayer side (\<lambda>pl. pl \<lparr> detected := True \<rparr>) st)"
  have p2: "P T ?st2" using sc p by (simp add: sc_detected sc_bbox)
  have a: "holdsOut (P T) (P ?n) (detectShield side lms ?st2)"
    by (rule holdsOut_mono[OF detectShield_closed[OF sc p2]]) (auto intro: sc_mono[OF sc r])
  show ?thesis
    unfolding processPlayer_def Let_def
    apply (rule holdsOut_obind[OF a])
    apply (rule holdsOut_obind[OF detectSpecial_closed[OF sc r]], assumption)
    apply (rule holdsOut_obind[OF detectSword_closed[OF sc]], assumption)
    apply (rule holdsOut_obind[where Q="P ?n"])
     apply (simp add: detectPunch_closed[OF sc])
    apply (rule drawSkeleton_closed, assumption)
    done
qed

lemma updLoop_closed:
  "stepClosed R P \<Longrightarrow> P T st \<Longrightarrow> n \<le> length (projectiles st) \<Longrightarrow> P T (updLoop rnd n st)"
proof (induction n arbitrary: st)
  case 0
  then show ?case by simp
next
  case (Suc n)
  have "P T (updStep rnd n st)" using Suc.prems by (simp add: sc_updStep)
  moreover have "n \<le> length (projectiles (updStep rnd n st))"
    using Suc.prems by (simp add: updStep_length)
  ultimately show ?case using Suc.IH Suc.prems(1) by simp
qed

lemma textLoop_closed:
  "stepClosed R P \<Longrightarrow> P T st \<Longrightarrow> n \<le> length (floatingTexts st) \<Longrightarrow> P T (textLoop n st)"
proof (induction n arbitrary: st)
  case 0
  then show ?case by simp
next
  case (Suc n)
  have "P T (textStep n st)" using Suc.prems by (simp add: sc_textStep)
  moreover have "n \<le> length (floatingTexts (textStep n st))"
    using Suc.prems by (simp add: textStep_length)
  ultimately show ?case using Suc.IH Suc.prems(1) by simp
qed

lemma drawSimulate_closed:
  assumes sc: "stepClosed R P" and p: "P T st"
  shows "P T (drawSimulate frame st)"
proof -
  let ?st1 = "aiStep st"
  have p1: "P T ?st1" using sc p by (simp add: sc_updateAI aiStep_def)
  have p2: "P T (updateProjectiles (textIds frame) ?st1)"
    unfolding updateProjectiles_def by (rule updLoop_closed[OF sc p1]) simp
  have p3: "P T (updateFloatingText (updateProjectiles (textIds frame) ?st1))"
    unfolding updateFloatingText_def by (rule textLoop_closed[OF sc p2]) simp
  show ?thesis
    unfolding drawSimulate_def Let_def using p3 sc_gameOver[OF sc p3] by simp
qed

lemma drawUndetected_closed:
  assumes sc: "stepClosed R P" and p: "P T st"
  shows "P T (drawUndetected dl dr st)"
proof -
  let ?st1 = "if \<not> dl then st \<lparr> leftPlayer := undetect (leftPlayer st) \<rparr> else st"
  have p1: "P T ?st1" using sc p by (simp add: sc_undetectL)
  let ?st2 = "if \<not> dr
                 then (if \<not> isAI (rightPlayer ?st1)
                       then ?st1 \<lparr> rightPlayer := undetect (rightPlayer ?st1) \<rparr> else ?st1)
                 else ?st1 \<lparr> rightPlayer := (rightPlayer ?st1) \<lparr> isAI := False \<rparr> \<rparr>"
  have p2: "P T ?st2" using sc_undetectR[OF sc p1] sc_ai[OF sc p1] p1 by presburger
  show ?thesis
    unfolding drawUndetected_def Let_def using p2 sc_ai[OF sc p2] by presburger
qed

lemma mkPoses_throw: "holdsOut (\<lambda>_. True) (\<lambda>s. s = st) (mkPoses ls st)"
  by (induction ls) (auto intro!: holdsOut_deref holdsOut_obind[where Q="\<lambda>_. True"])

lemma forEachPose_closed:
  assumes sc: "stepClosed R P"
    and step: "\<And>j. R (nowSpecial (ev j)) (nowSpecial (ev (Suc j)))"
    and fin: "\<And>j. R (nowSpecial (ev j)) T'"
  shows "P T st \<Longrightarrow> R T (nowSpecial (ev k)) \<Longrightarrow> R T T' \<Longrightarrow>
           holdsOut (\<lambda>(dl, dr, s). P T' s) (P T') (forEachPose ev k poses dl dr st)"
proof (induction poses arbitrary: k T st dl dr)
  case Nil
  then show ?case using sc_mono[OF sc] by auto
next
  case (Cons pose rest)
  have pp: "holdsOut (P (nowSpecial (ev k))) (P T') (processPlayer side (fst pose) (ev k) st)" for side
    by (rule holdsOut_mono[OF processPlayer_closed[OF sc Cons.prems(2) Cons.prems(1)]])
       (auto intro: sc_mono[OF sc fin])
  show ?case
    unfolding forEachPose.simps Let_def
    by (auto intro!: holdsOut_obind[OF pp] Cons.IH step fin)
qed

lemma drawDetect_closed:
  assumes sc: "stepClosed R P"
    and step: "\<And>j. R (nowSpecial (envs frame j)) (nowSpecial (envs frame (Suc j)))"
    and fin: "\<And>j. R (nowSpecial (envs frame j)) T'"
    and p: "P T st" and r0: "R T (nowSpecial (envs frame 0))" and rT: "R T T'"
  shows "holdsOut (\<lambda>(dl, dr, s). P T' s) (P T') (drawDetect frame st)"
proof -
  have pT': "P T' st" using sc_mono[OF sc rT p] .
  have mk: "holdsOut (\<lambda>_. True) (P T') (mkPoses ls st)" for ls
    by (rule holdsOut_mono[OF mkPoses_throw]) (auto simp: pT')
  show ?thesis
    unfolding drawDetect_def
    by (auto split: option.splits simp: pT'
          intro!: holdsOut_obind[OF mk] forEachPose_closed[OF sc step fin p r0 rT])
qed

lemma draw_closed:
  assumes sc: "stepClosed R P"
    and step: "\<And>j. R (nowSpecial (envs frame j)) (nowSpecial (envs frame (Suc j)))"
    and fin: "\<And>j. R (nowSpecial (envs frame j)) T'"
    and p: "P T st" and r0: "R T (nowSpecial (envs frame 0))" and rT: "R T T'"
  shows "holdsOut (P T') (P T') (draw frame st)"
proof (cases "isGameOver st")
  case True
  then show ?thesis using sc_mono[OF sc rT p] by (simp add: draw_def)
next
  case False
  show ?thesis
    unfolding draw_def using False
    by (auto intro!: holdsOut_obind[OF drawDetect_closed[OF sc step fin p r0 rT]]
          drawSimulate_closed[OF sc] drawUndetected_closed[OF sc])
qed

lemma draw_untimed:
  assumes "stepClosed (\<lambda>_ _. True) (\<lambda>_. Q)" and "Q st"
  shows "holdsOut Q Q (draw frame st)"
  using draw_closed[where R="\<lambda>_ _. True" and P="\<lambda>_. Q" and T=0 and T'=0 and frame=frame and st=st]
    assms by simp


section \<open>Evaluation at concrete inputs\<close>

lemma body_length [simp]: "length (body a b c d e f) = 33"
  by (simp add: body_def)

lemma body_at [simp]:
  "lmAt (body a b c d e f) 11 = Some a"
  "lmAt (body a b c d e f) 12 = Some b"
  "lmAt (body a b c d e f) 15 = Some c"
  "lmAt (body a b c d e f) 16 = Some d"
  "lmAt (body a b c d e f) 23 = Some e"
  "lmAt (body a b c d e f) 24 = Some f"
  by (simp_all add: lmAt_def body_def nth_append)

lemma body_nth [simp]:
  "body a b c d e f ! 11 = a" "body a b c d e f ! 12 = b" "body a b c d e f ! 15 = c"
  "body a b c d e f ! 16 = d" "body a b c d e f ! 23 = e" "body a b c d e f ! 24 = f"
  by (simp_all add: body_def nth_append)

lemma mkLandmark_simps [simp]: "lm_x (mkLandmark a b) = a" "lm_y (mkLandmark a b) = b"
  by (simp_all add: mkLandmark_def)

lemma initState_simps [simp]:
  "getPlayer SLeft initState = initPlayer SLeft False ''#3b82f6''"
  "getPlayer SRight initState = initPlayer SRight True ''#ef4444''"
  "projectiles initState = []" "floatingTexts initState = []" "isGameOver initState = False"
  by (simp_all add: getPlayer_def initState_def)

lemma initState_target [simp]:
  "virtualTargetY initState = 0.5" "virtualTargetSpeed initState = 0.005"
  by (simp_all add: initState_def)

lemma sqrt_less_sq: "0 < c \<Longrightarrow> sqrt x < c \<longleftrightarrow> x < c ^ 2"
  by (metis real_sqrt_less_iff real_sqrt_abs abs_of_pos)

lemma getDist_less: "0 < c \<Longrightarrow> getDist a b < c \<longleftrightarrow> (lm_x a - lm_x b) ^ 2 + (lm_y a - lm_y b) ^ 2 < c ^ 2"
  by (simp add: getDist_def sqrt_less_sq)

lemma getDist_shield:
  "getDist a b < SHIELD_THRESHOLD \<longleftrightarrow> (lm_x a - lm_x b) ^ 2 + (lm_y a - lm_y b) ^ 2 < 1 / 16"
  unfolding SHIELD_THRESHOLD_def by (subst getDist_less) (simp_all add: power2_eq_square)

lemma getDist_swordDist:
  "getDist a b < SWORD_ACTIVATION_DIST \<longleftrightarrow> (lm_x a - lm_x b) ^ 2 + (lm_y a - lm_y b) ^ 2 < 9 / 400"
  unfolding SWORD_ACTIVATION_DIST_def by (subst getDist_less) (simp_all add: power2_eq_square)

lemma getDist_shield_nf:
  "(getDist a b * 4 < 1) = ((lm_x a - lm_x b) ^ 2 + (lm_y a - lm_y b) ^ 2 < 1 / 16)"
  using getDist_shield[of a b] by (simp add: SHIELD_THRESHOLD_def)

lemma getDist_sword_nf:
  "(getDist a b * 20 < 3) = ((lm_x a - lm_x b) ^ 2 + (lm_y a - lm_y b) ^ 2 < 9 / 400)"
  using getDist_swordDist[of a b] by (simp add: SWORD_ACTIVATION_DIST_def)

lemma getDist_same_y: "lm_y a = lm_y b \<Longrightarrow> getDist a b = \<bar>lm_x a - lm_x b\<bar>"
  by (simp add: getDist_def)

lemma getDist_same_x: "lm_x a = lm_x b \<Longrightarrow> getDist a b = \<bar>lm_y a - lm_y b\<bar>"
  by (simp add: getDist_def)

lemma handSpeed_same_y:
  "lm_y w - lm_y s = pt_y prev \<Longrightarrow> handSpeed prev w s = \<bar>lm_x w - lm_x s - pt_x prev\<bar>"
  by (simp add: handSpeed_def Let_def)

lemmas axis_simps = getDist_same_y getDist_same_x handSpeed_same_y

lemmas classify_defs =
  processPlayer_def detectShield_def detectSpecial_def detectSword_def detectPunch_def
  checkHand_def drawSkeleton_def shieldBody_def specialBody_def swordBody_def handBody_def
  isHoldingPose_def fireSpecial_def deref_def

lemmas draw_defs =
  draw_def drawDetect_def drawUndetected_def drawSimulate_def aiStep_def updateProjectiles_def
  updateFloatingText_def undetect_def resetPlayerAction_def

lemmas geom_defs = shieldPose_def isSpecialPoseRaw_def getDist_shield getDist_swordDist
  power2_eq_square

lemmas eval_defs = draw_defs frameAt_def envAt_def geom_defs
      initPlayer_def classify_defs Let_def players_as_getPlayer MAX_HP_def SPECIAL_CHARGE_TIME_def
      CHARGE_GRACE_PERIOD_def

lemmas player_eval =
  processPlayer_def detectShield_def detectSpecial_def detectSword_def detectPunch_def
  checkHand_def drawSkeleton_def shieldBody_def specialBody_def swordBody_def handBody_def
  isHoldingPose_def fireSpecial_def Let_def shieldPose_def isSpecialPoseRaw_def inHeightBand_def
  axis_simps envAt_def getPrevWrist_def setPrevWrist_def relWrist_def initPlayer_def
  SHIELD_THRESHOLD_def SWORD_ACTIVATION_DIST_def SWORD_HEIGHT_THRESHOLD_def
  PUNCH_COOLDOWN_def PUNCH_SPEED_THRESHOLD_def EXTENSION_THRESHOLD_def

lemmas player_eval2 = player_eval getDist_shield_nf getDist_sword_nf power2_eq_square
  SPECIAL_CHARGE_TIME_def CHARGE_GRACE_PERIOD_def SWORD_SWING_THRESHOLD_def SWORD_COOLDOWN_def

section \<open>Partial landmark arrays\<close>

lemma checkHand_complete:
  "Q st \<Longrightarrow> (\<And>wr sh. Q (handBody side hs wr sh scale now rid st)) \<Longrightarrow>
     holdsOut Q (\<lambda>_. False) (checkHand side hs (Some w) (Some s) (Some h) scale now rid st)"
  by (simp add: checkHand_def Let_def)

lemma processPlayer_complete:
  assumes len: "25 \<le> length lms"
  shows "holdsOut (\<lambda>s. detected (getPlayer side s)) (\<lambda>_. False) (processPlayer side lms env st)"
proof -
  have l: "lmAt lms 11 = Some (lms ! 11)" "lmAt lms 12 = Some (lms ! 12)"
    "lmAt lms 15 = Some (lms ! 15)" "lmAt lms 16 = Some (lms ! 16)"
    "lmAt lms 23 = Some (lms ! 23)" "lmAt lms 24 = Some (lms ! 24)"
    using len by (simp_all add: lmAt_Some)
  let ?D = "\<lambda>s. detected (getPlayer side s)"
  have punch: "holdsOut ?D (\<lambda>_. False) (detectPunch side lms env s)" if "?D s" for s
    unfolding detectPunch_def Let_def l deref_simps
    by (rule holdsOut_obind[where Q="?D"]; (rule checkHand_complete)?) (simp_all add: that)
  show ?thesis
    unfolding processPlayer_def Let_def detectShield_def detectSpecial_def l deref_simps obind.simps
    apply (rule holdsOut_obind[where Q="?D"])
     apply (simp add: detectSword_def Let_def l shieldBody_player)
    apply (rule holdsOut_obind[where Q="?D"])
     apply (simp add: punch)
    apply (simp add: drawSkeleton_def l)
    done
qed

lemma processPlayer_no_wrist:
  assumes len: "length lms \<le> 16"
  shows "processPlayer side lms env st =
           Throw TypeError (updPlayer side (\<lambda>pl. pl \<lparr> boundingBox := Some (hitbox lms) \<rparr>)
                              (updPlayer side (\<lambda>pl. pl \<lparr> detected := True \<rparr>) st))"
proof -
  have "lmAt lms 16 = None" using len by (simp add: lmAt_None)
  then have "detectShield side lms s = Throw TypeError s" for s
    by (simp add: detectShield_def deref_def split: option.split)
  then show ?thesis by (simp add: processPlayer_def Let_def)
qed

lemma mkPoses_complete:
  "list_all (\<lambda>l. 25 \<le> length l) ls \<Longrightarrow> holdsOut (\<lambda>_. True) (\<lambda>_. False) (mkPoses ls st)"
  by (induction ls) (auto simp: lmAt_Some intro!: holdsOut_obind[where Q="\<lambda>_. True"])

lemma mkPoses_fst:
  "holdsOut (\<lambda>ps. map fst ps = ls) (\<lambda>_. True) (mkPoses ls st)"
  by (induction ls) (auto intro!: holdsOut_deref holdsOut_obind[where Q="\<lambda>ps. map fst ps = ls" for ls])

lemma forEachPose_complete:
  "list_all (\<lambda>l. 25 \<le> length l) (map fst poses) \<Longrightarrow>
     holdsOut (\<lambda>_. True) (\<lambda>_. False) (forEachPose ev k poses dl dr st)"
proof (induction poses arbitrary: k dl dr st)
  case Nil
  then show ?case by simp
next
  case (Cons pose rest)
  have pp: "holdsOut (\<lambda>_. True) (\<lambda>_. False) (processPlayer side (fst pose) (ev k) st)" for side
    by (rule holdsOut_mono[OF processPlayer_complete]) (use Cons.prems in auto)
  show ?case
    unfolding forEachPose.simps Let_def
    using Cons.prems by (auto intro!: holdsOut_obind[OF pp] Cons.IH)
qed

lemma draw_complete:
  assumes "case poseResults frame of None \<Rightarrow> True | Some ls \<Rightarrow> list_all (\<lambda>l. 25 \<le> length l) ls"
  shows "holdsOut (\<lambda>_. True) (\<lambda>_. False) (draw frame st)"
proof -
  have "holdsOut (\<lambda>_. True) (\<lambda>_. False) (drawDetect frame st)"
  proof (cases "poseResults frame")
    case None
    then show ?thesis by (simp add: drawDetect_def)
  next
    case (Some ls)
    then have all: "list_all (\<lambda>l. 25 \<le> length l) ls" using assms by simp
    have mk: "holdsOut (\<lambda>ps. map fst ps = ls) (\<lambda>_. False) (mkPoses ls st)"
      using mkPoses_complete[OF all, of st] mkPoses_fst[of ls st]
      by (cases "mkPoses ls st") simp_all
    show ?thesis
      unfolding drawDetect_def Some
      using all by (auto intro!: holdsOut_obind[OF mk] forEachPose_complete)
  qed
  then show ?thesis
    unfolding draw_def
    by (auto intro!: holdsOut_obind[where Q="\<lambda>_. True"])
qed

lemma mkPoses_no_shoulder:
  "list_ex (\<lambda>l. length l \<le> 12) ls \<Longrightarrow> mkPoses ls st = Throw TypeError st"
proof (induction ls)
  case Nil
  then show ?case by simp
next
  case (Cons l ls)
  show ?case
  proof (cases "length l \<le> 12")
    case True
    then show ?thesis by (simp add: lmAt_def deref_def)
  next
    case False
    then have "mkPoses ls st = Throw TypeError st" using Cons by simp
    then show ?thesis using False by (simp add: lmAt_def)
  qed
qed

lemma mkPoses_shoulders:
  "list_all (\<lambda>l. 13 \<le> length l) ls \<Longrightarrow>
     mkPoses ls st = Done (map (\<lambda>l. (l, (lm_x (l ! 11) + lm_x (l ! 12)) / 2)) ls)"
  by (induction ls) (simp_all add: lmAt_def)

lemma draw_no_shoulder:
  assumes "\<not> isGameOver st" "poseResults frame = Some poses" "list_ex (\<lambda>l. length l \<le> 12) poses"
  shows "draw frame st = Throw TypeError st"
proof -
  have "poses \<noteq> []" using assms(3) by auto
  then show ?thesis
    using assms by (simp add: draw_def drawDetect_def mkPoses_no_shoulder)
qed

lemma draw_no_wrist:
  assumes go: "\<not> isGameOver st" and pr: "poseResults frame = Some (lms # rest)"
    and sh: "list_all (\<lambda>l. 13 \<le> length l) (lms # rest)" and len: "length lms \<le> 16"
  shows "draw frame st =
           Throw TypeError
             (updPlayer (sideOf lms) (\<lambda>pl. pl \<lparr> boundingBox := Some (hitbox lms) \<rparr>)
                (updPlayer (sideOf lms) (\<lambda>pl. pl \<lparr> detected := True \<rparr>) st))"
  using go
  by (simp add: draw_def drawDetect_def pr mkPoses_shoulders[OF sh] Let_def sideOf_def
        processPlayer_no_wrist[OF len] del: mkPoses.simps)

lemma classified_fields:
  "detected (getPlayer side s') = detected (getPlayer side s) \<Longrightarrow>
   boundingBox (getPlayer side s') = boundingBox (getPlayer side s) \<Longrightarrow>
   isShielding (getPlayer side s') = isShielding (getPlayer side s) \<Longrightarrow>
   classified side lms s' = classified side lms s"
  by (simp add: classified_def)

lemma detectSword_Done:
  assumes "17 \<le> length lms"
  shows "\<exists>st5. detectSword side lms now rid st = Done st5
           \<and> classified side lms0 st5 = classified side lms0 st
           \<and> (isShielding (getPlayer side st) \<or> isCharging (getPlayer side st)
                \<longrightarrow> \<not> hasSword (getPlayer side st5))
           \<and> isShielding (getPlayer side st5) = isShielding (getPlayer side st)
           \<and> isCharging (getPlayer side st5) = isCharging (getPlayer side st)"
  using assms
  by (auto simp: detectSword_def Let_def lmAt_Some classified_def swordBody_def)

lemma handBody_fields [simp]:
  "isShielding (getPlayer s (handBody side hs wr sh scale now rid st)) = isShielding (getPlayer s st)"
  "isCharging (getPlayer s (handBody side hs wr sh scale now rid st)) = isCharging (getPlayer s st)"
  "hasSword (getPlayer s (handBody side hs wr sh scale now rid st)) = hasSword (getPlayer s st)"
  "boundingBox (getPlayer s (handBody side hs wr sh scale now rid st)) = boundingBox (getPlayer s st)"
  by (simp_all add: handBody_def Let_def)

lemma checkHand_left_Done:
  "\<exists>sL. checkHand side hs (Some w) (Some s) (Some h) scale now rid st = Done sL
      \<and> isShielding (getPlayer side sL) = isShielding (getPlayer side st)
      \<and> isCharging (getPlayer side sL) = isCharging (getPlayer side st)
      \<and> hasSword (getPlayer side sL) = hasSword (getPlayer side st)
      \<and> classified side lms0 sL = classified side lms0 st"
  by (simp add: checkHand_def Let_def classified_def)

lemma checkHand_no_hip:
  assumes "\<not> isShielding (getPlayer side st)" "\<not> isCharging (getPlayer side st)"
    "\<not> hasSword (getPlayer side st)"
  shows "checkHand side hs w (Some s) None scale now rid st =
           (if now - lastPunchTime (getPlayer side st) < PUNCH_COOLDOWN
            then Done st else Throw TypeError st)"
  using assms by (simp add: checkHand_def Let_def)

lemma afterSpecial_no_hip:
  assumes l17: "17 \<le> length lms" and l24: "length lms \<le> 24"
    and cl: "classified side lms st4"
  shows "classified side lms (stateOf (afterSpecial side lms env st4))
       \<and> afterSpecial side lms env st4 =
           (if returnsNoHip lms env (getPlayer side (stateOf (afterSpecial side lms env st4)))
            then Done (stateOf (afterSpecial side lms env st4))
            else Throw TypeError (stateOf (afterSpecial side lms env st4)))"
proof -
  obtain st5 where sw: "detectSword side lms (nowSword env) (idSword env) st4 = Done st5"
    and c5: "classified side lms st5"
    using detectSword_Done[OF l17, of side "nowSword env" "idSword env" st4 lms] cl by auto
  have bb: "boundingBox (getPlayer side st5) \<noteq> None" using c5 by (simp add: classified_def)
  have l: "lmAt lms 11 = Some (lms ! 11)" "lmAt lms 12 = Some (lms ! 12)"
    "lmAt lms 15 = Some (lms ! 15)" "lmAt lms 16 = Some (lms ! 16)" "lmAt lms 24 = None"
    using l17 l24 by (simp_all add: lmAt_def)
  show ?thesis
  proof (cases "\<not> isShielding (getPlayer side st5) \<and> \<not> isCharging (getPlayer side st5)
                  \<and> \<not> hasSword (getPlayer side st5)")
    case False
    then have "afterSpecial side lms env st4 =
                 (if isShielding (getPlayer side st5) then Throw TypeError st5 else Done st5)"
      using bb by (auto simp: afterSpecial_def sw drawSkeleton_def l)
    then show ?thesis using False c5 by (auto simp: returnsNoHip_def)
  next
    case clear: True
    show ?thesis
    proof (cases "length lms = 24")
      case False
      then have "lmAt lms 23 = None" using l24 by (simp add: lmAt_def)
      then have "afterSpecial side lms env st4 = Throw TypeError st5"
        using clear by (simp add: afterSpecial_def sw detectPunch_def l)
      then show ?thesis using clear c5 False by (simp add: returnsNoHip_def)
    next
      case True
      then have l23: "lmAt lms 23 = Some (lms ! 23)" by (simp add: lmAt_def)
      let ?scale = "max (max (getDist (lms ! 11) (lms ! 12)) (getDist (lms ! 11) (lms ! 23))) 0.1"
      obtain sL where
        cl: "checkHand side HLeft (Some (lms ! 15)) (Some (lms ! 11)) (Some (lms ! 23)) ?scale
               (nowPunchL env) (idPunchL env) st5 = Done sL"
        and fl: "\<not> isShielding (getPlayer side sL)" "\<not> isCharging (getPlayer side sL)"
          "\<not> hasSword (getPlayer side sL)"
        and cL: "classified side lms sL"
        using checkHand_left_Done[of side HLeft "lms ! 15" "lms ! 11" "lms ! 23" ?scale
            "nowPunchL env" "idPunchL env" st5 lms] clear c5 by auto
      have "afterSpecial side lms env st4 =
              (if nowPunchR env - lastPunchTime (getPlayer side sL) < PUNCH_COOLDOWN
               then Done sL else Throw TypeError sL)"
        using clear fl
        by (simp add: afterSpecial_def sw detectPunch_def l l23 Let_def cl
              checkHand_no_hip[OF fl] drawSkeleton_def)
      then show ?thesis using fl cL True by (simp add: returnsNoHip_def)
    qed
  qed
qed

lemma processPlayer_no_hip:
  assumes l17: "17 \<le> length lms" and l24: "length lms \<le> 24"
  shows "classified side lms (stateOf (processPlayer side lms env st))
       \<and> processPlayer side lms env st =
           (if returnsNoHip lms env (getPlayer side (stateOf (processPlayer side lms env st)))
            then Done (stateOf (processPlayer side lms env st))
            else Throw TypeError (stateOf (processPlayer side lms env st)))"
  unfolding processPlayer_unfold[OF l17]
  by (rule afterSpecial_no_hip[OF l17 l24])
     (simp add: classified_def specialBody_def Let_def fireSpecial_def shieldBody_player
        isHoldingPose_def)


text \<open>
  C6 (amended). A landmark array is complete with 25 landmarks (the shoulders are at 11
  and 12, the wrists at 15 and 16, the hips at 23 and 24); a landmark is missing when the
  array ends before its index. A body with a complete array is processed without a throw
  and marked detected, and a frame callback whose bodies are all complete returns. A
  partial array is never screened:
  \<^item> when a body of the frame lacks a shoulder (at most 12 landmarks) and the match is
    not over, p.draw throws a TypeError in results.landmarks.map, before any body is
    assigned to a slot, and the game state is unchanged;
  \<^item> a body with both shoulders but without a wrist (13 to 16 landmarks) is marked
    detected and given its hurtbox by processPlayer, detectShield is entered and throws a
    TypeError; p.draw, the match not being over, throws in this way when its first body is
    such a body and every body has its shoulders, the slot being the one of the shoulder
    midpoint;
  \<^item> a body with both wrists but without a hip (17 to 24 landmarks) is marked detected,
    given its hurtbox and classified (its shield flag is the shield geometry of the body);
    processPlayer returns exactly when returnsNoHip holds of the player it leaves, and
    otherwise throws a TypeError from the state it has reached (at the missing hip, in the
    punch check or in the drawing of the shield).
\<close>

theorem partial_landmarks_case_by_case:
  "(25 \<le> length lms \<longrightarrow>
      (\<exists>st'. processPlayer side lms env st = Done st' \<and> detected (getPlayer side st')))
   \<and> (poseResults frame = Some poses \<and> list_all (\<lambda>l. 25 \<le> length l) poses \<longrightarrow>
      (\<exists>st'. draw frame st = Done st'))
   \<and> (\<not> isGameOver st \<and> poseResults frame = Some poses
        \<and> list_ex (\<lambda>l. length l \<le> 12) poses \<longrightarrow>
      draw frame st = Throw TypeError st)
   \<and> (13 \<le> length lms \<and> length lms \<le> 16 \<longrightarrow>
      processPlayer side lms env st =
        Throw TypeError (updPlayer side (\<lambda>pl. pl \<lparr> boundingBox := Some (hitbox lms) \<rparr>)
                           (updPlayer side (\<lambda>pl. pl \<lparr> detected := True \<rparr>) st)))
   \<and> (\<not> isGameOver st \<and> poseResults frame = Some (lms # rest)
        \<and> list_all (\<lambda>l. 13 \<le> length l) (lms # rest) \<and> length lms \<le> 16 \<longrightarrow>
      draw frame st =
        Throw TypeError
          (updPlayer (sideOf lms) (\<lambda>pl. pl \<lparr> boundingBox := Some (hitbox lms) \<rparr>)
             (updPlayer (sideOf lms) (\<lambda>pl. pl \<lparr> detected := True \<rparr>) st)))
   \<and> (17 \<le> length lms \<and> length lms \<le> 24 \<longrightarrow>
      classified side lms (stateOf (processPlayer side lms env st))
      \<and> processPlayer side lms env st =
          (if returnsNoHip lms env (getPlayer side (stateOf (processPlayer side lms env st)))
           then Done (stateOf (processPlayer side lms env st))
           else Throw TypeError (stateOf (processPlayer side lms env st))))"
proof (intro conjI impI)
  assume "25 \<le> length lms"
  from processPlayer_complete[OF this, of side env st]
  show "\<exists>st'. processPlayer side lms env st = Done st' \<and> detected (getPlayer side st')"
    by (cases "processPlayer side lms env st") simp_all
next
  assume "poseResults frame = Some poses \<and> list_all (\<lambda>l. 25 \<le> length l) poses"
  then have "holdsOut (\<lambda>_. True) (\<lambda>_. False) (draw frame st)"
    by (intro draw_complete) simp
  then show "\<exists>st'. draw frame st = Done st'"
    by (cases "draw frame st") simp_all
next
  assume "\<not> isGameOver st \<and> poseResults frame = Some poses
            \<and> list_ex (\<lambda>l. length l \<le> 12) poses"
  then show "draw frame st = Throw TypeError st"
    using draw_no_shoulder[of st frame poses] by simp
next
  assume "13 \<le> length lms \<and> length lms \<le> 16"
  then show "processPlayer side lms env st =
        Throw TypeError (updPlayer side (\<lambda>pl. pl \<lparr> boundingBox := Some (hitbox lms) \<rparr>)
                           (updPlayer side (\<lambda>pl. pl \<lparr> detected := True \<rparr>) st))"
    using processPlayer_no_wrist[of lms side env st] by simp
next
  assume "\<not> isGameOver st \<and> poseResults frame = Some (lms # rest)
        \<and> list_all (\<lambda>l. 13 \<le> length l) (lms # rest) \<and> length lms \<le> 16"
  then show "draw frame st =
        Throw TypeError
          (updPlayer (sideOf lms) (\<lambda>pl. pl \<lparr> boundingBox := Some (hitbox lms) \<rparr>)
             (updPlayer (sideOf lms) (\<lambda>pl. pl \<lparr> detected := True \<rparr>) st))"
    using draw_no_wrist[of st frame lms rest] by simp
next
  assume a: "17 \<le> length lms \<and> length lms \<le> 24"
  then have l17: "17 \<le> length lms" and l24: "length lms \<le> 24" by simp_all
  from processPlayer_no_hip[OF l17 l24, of side env st]
  show "classified side lms (stateOf (processPlayer side lms env st))" by simp
  from processPlayer_no_hip[OF l17 l24, of side env st]
  show "processPlayer side lms env st =
          (if returnsNoHip lms env (getPlayer side (stateOf (processPlayer side lms env st)))
           then Done (stateOf (processPlayer side lms env st))
           else Throw TypeError (stateOf (processPlayer side lms env st)))" by simp
qed

lemma take_body_at:
  "i < n \<Longrightarrow> n \<le> 33 \<Longrightarrow> lmAt (take n (body a b c d e f)) i = lmAt (body a b c d e f) i"
  "n \<le> i \<Longrightarrow> n \<le> 33 \<Longrightarrow> lmAt (take n (body a b c d e f)) i = None"
  by (simp_all add: lmAt_def)

text \<open>
  The amended C6 at concrete inputs: the 33-landmark body twoPunchPose is processed and
  marked detected, and its frame callback returns; a frame of twoPunchPose and its first 12
  landmarks throws with the initial state unchanged; the 13-landmark body shortPose throws
  in detectShield, in processPlayer and as the only body of a frame; the first 20 landmarks
  of twoPunchPose (no hip) throw in the punch check; the first 24 landmarks (no right hip)
  are processed and returned, the left hand having fired a punch and the right hand being
  inside the cooldown.
\<close>

theorem partial_landmarks_case_by_case_witness:
  "25 \<le> length twoPunchPose
   \<and> (\<exists>st'. processPlayer SLeft twoPunchPose (envAt 1000) initState = Done st'
          \<and> detected (getPlayer SLeft st'))
   \<and> poseResults (frameAt [twoPunchPose] 1000) = Some [twoPunchPose]
   \<and> list_all (\<lambda>l. 25 \<le> length l) [twoPunchPose]
   \<and> (\<exists>st'. draw (frameAt [twoPunchPose] 1000) initState = Done st')
   \<and> \<not> isGameOver initState
   \<and> poseResults (frameAt [twoPunchPose, take 12 twoPunchPose] 1000)
       = Some [twoPunchPose, take 12 twoPunchPose]
   \<and> list_ex (\<lambda>l. length l \<le> 12) [twoPunchPose, take 12 twoPunchPose]
   \<and> draw (frameAt [twoPunchPose, take 12 twoPunchPose] 1000) initState
       = Throw TypeError initState
   \<and> 13 \<le> length shortPose \<and> length shortPose \<le> 16
   \<and> processPlayer SLeft shortPose (envAt 1000) initState =
        Throw TypeError
          (updPlayer SLeft (\<lambda>pl. pl \<lparr> boundingBox := Some (hitbox shortPose) \<rparr>)
             (updPlayer SLeft (\<lambda>pl. pl \<lparr> detected := True \<rparr>) initState))
   \<and> poseResults (frameAt [shortPose] 1000) = Some [shortPose]
   \<and> list_all (\<lambda>l. 13 \<le> length l) [shortPose]
   \<and> sideOf shortPose = SLeft
   \<and> draw (frameAt [shortPose] 1000) initState =
        Throw TypeError
          (updPlayer SLeft (\<lambda>pl. pl \<lparr> boundingBox := Some (hitbox shortPose) \<rparr>)
             (updPlayer SLeft (\<lambda>pl. pl \<lparr> detected := True \<rparr>) initState))
   \<and> 17 \<le> length (take 20 twoPunchPose) \<and> length (take 20 twoPunchPose) \<le> 24
   \<and> classified SLeft (take 20 twoPunchPose)
        (stateOf (processPlayer SLeft (take 20 twoPunchPose) (envAt 1000) initState))
   \<and> \<not> returnsNoHip (take 20 twoPunchPose) (envAt 1000)
          (getPlayer SLeft
             (stateOf (processPlayer SLeft (take 20 twoPunchPose) (envAt 1000) initState)))
   \<and> processPlayer SLeft (take 20 twoPunchPose) (envAt 1000) initState
       = Throw TypeError
           (stateOf (processPlayer SLeft (take 20 twoPunchPose) (envAt 1000) initState))
   \<and> 17 \<le> length (take 24 twoPunchPose) \<and> length (take 24 twoPunchPose) \<le> 24
   \<and> classified SLeft (take 24 twoPunchPose)
        (stateOf (processPlayer SLeft (take 24 twoPunchPose) (envAt 1000) initState))
   \<and> returnsNoHip (take 24 twoPunchPose) (envAt 1000)
          (getPlayer SLeft
             (stateOf (processPlayer SLeft (take 24 twoPunchPose) (envAt 1000) initState)))
   \<and> processPlayer SLeft (take 24 twoPunchPose) (envAt 1000) initState
       = Done (stateOf (processPlayer SLeft (take 24 twoPunchPose) (envAt 1000) initState))"
proof -
  have n20: "\<not> returnsNoHip (take 20 twoPunchPose) (envAt 1000)
          (getPlayer SLeft
             (stateOf (processPlayer SLeft (take 20 twoPunchPose) (envAt 1000) initState)))"
    by (simp add: returnsNoHip_def twoPunchPose_def take_body_at player_eval)
  have n24: "returnsNoHip (take 24 twoPunchPose) (envAt 1000)
          (getPlayer SLeft
             (stateOf (processPlayer SLeft (take 24 twoPunchPose) (envAt 1000) initState)))"
    by (simp add: returnsNoHip_def twoPunchPose_def take_body_at player_eval)
  have s: "sideOf shortPose = SLeft" by (simp add: sideOf_def shortPose_def)
  have len: "length twoPunchPose = 33" "length shortPose = 13"
    by (simp_all add: twoPunchPose_def shortPose_def)
  have go: "\<not> isGameOver initState" by (simp add: initState_def)
  note a = partial_landmarks_case_by_case[of twoPunchPose SLeft "envAt 1000" initState
      "frameAt [twoPunchPose] 1000" "[twoPunchPose]" "[]"]
  note b = partial_landmarks_case_by_case[of shortPose SLeft "envAt 1000" initState
      "frameAt [twoPunchPose, take 12 twoPunchPose] 1000" "[twoPunchPose, take 12 twoPunchPose]" "[]"]
  note c = partial_landmarks_case_by_case[of shortPose SLeft "envAt 1000" initState
      "frameAt [shortPose] 1000" "[shortPose]" "[]"]
  note d = partial_landmarks_case_by_case[of "take 20 twoPunchPose" SLeft "envAt 1000" initState
      "frameAt [shortPose] 1000" "[shortPose]" "[]"]
  note e = partial_landmarks_case_by_case[of "take 24 twoPunchPose" SLeft "envAt 1000" initState
      "frameAt [shortPose] 1000" "[shortPose]" "[]"]
  have A: "(\<exists>st'. processPlayer SLeft twoPunchPose (envAt 1000) initState = Done st'
          \<and> detected (getPlayer SLeft st'))
      \<and> (\<exists>st'. draw (frameAt [twoPunchPose] 1000) initState = Done st')"
    using a len by (simp add: frameAt_def)
  have B: "draw (frameAt [twoPunchPose, take 12 twoPunchPose] 1000) initState
       = Throw TypeError initState"
    using b len go by (simp add: frameAt_def)
  have C: "processPlayer SLeft shortPose (envAt 1000) initState =
        Throw TypeError
          (updPlayer SLeft (\<lambda>pl. pl \<lparr> boundingBox := Some (hitbox shortPose) \<rparr>)
             (updPlayer SLeft (\<lambda>pl. pl \<lparr> detected := True \<rparr>) initState))
     \<and> draw (frameAt [shortPose] 1000) initState =
        Throw TypeError
          (updPlayer SLeft (\<lambda>pl. pl \<lparr> boundingBox := Some (hitbox shortPose) \<rparr>)
             (updPlayer SLeft (\<lambda>pl. pl \<lparr> detected := True \<rparr>) initState))"
    using c len go s by (simp add: frameAt_def)
  have D: "classified SLeft (take 20 twoPunchPose)
        (stateOf (processPlayer SLeft (take 20 twoPunchPose) (envAt 1000) initState))
     \<and> processPlayer SLeft (take 20 twoPunchPose) (envAt 1000) initState
       = Throw TypeError
           (stateOf (processPlayer SLeft (take 20 twoPunchPose) (envAt 1000) initState))"
    using d len n20 by simp
  have E: "classified SLeft (take 24 twoPunchPose)
        (stateOf (processPlayer SLeft (take 24 twoPunchPose) (envAt 1000) initState))
     \<and> processPlayer SLeft (take 24 twoPunchPose) (envAt 1000) initState
       = Done (stateOf (processPlayer SLeft (take 24 twoPunchPose) (envAt 1000) initState))"
    using e len n24 by simp
  show ?thesis
    using A B C D E n20 n24 s len go by (simp add: frameAt_def)
qed


text \<open>
  C6 (as stated) fails: on a frame whose only body has 13 landmarks (both shoulders, no
  wrist), the callback does not treat the body as undetected. The left player is marked
  detected and given a hurtbox, the classification is entered, and the callback throws.
\<close>

theorem partial_pose_throws_counterexample:
  "length shortPose = 13
   \<and> draw (frameAt [shortPose] 1000) initState
       = Throw TypeError (stateOf (draw (frameAt [shortPose] 1000) initState))
   \<and> detected (leftPlayer (stateOf (draw (frameAt [shortPose] 1000) initState)))
   \<and> boundingBox (leftPlayer (stateOf (draw (frameAt [shortPose] 1000) initState)))
       = Some (hitbox shortPose)"
  by (simp add: shortPose_def draw_def drawDetect_def frameAt_def lmAt_def processPlayer_def
        detectShield_def Let_def players_as_getPlayer)

section \<open>Exclusivity of the action flags\<close>


lemma excl_hp [simp]: "excl (pl \<lparr> hp := h \<rparr>) = excl pl"
  by (simp add: excl_def)

lemma excl_bbox [simp]: "excl (pl \<lparr> boundingBox := h \<rparr>) = excl pl"
  by (simp add: excl_def)





section \<open>The projectile pass\<close>

lemma updStep_bbox [simp]:
  "boundingBox (getPlayer s (updStep rnd i st)) = boundingBox (getPlayer s st)"
  "isShielding (getPlayer s (updStep rnd i st)) = isShielding (getPlayer s st)"
  by (simp_all add: updStep_player)

lemma collides_updStep [simp]: "collides (updStep rnd i st) q = collides st q"
  by (simp add: collides_def)

lemma actualDamage_updStep [simp]:
  "actualDamage q (getPlayer s (updStep rnd i st)) = actualDamage q (getPlayer s st)"
  by (simp add: actualDamage_def)

lemma survives_updStep [simp]: "survives (updStep rnd i st) = survives st"
  by (simp add: survives_def fun_eq_iff)

lemma hitsOn_updStep [simp]: "hitsOn (updStep rnd i st) s = hitsOn st s"
  by (simp add: hitsOn_def fun_eq_iff)

lemma appliedDamage_updStep [simp]: "appliedDamage (updStep rnd i st) s = appliedDamage st s"
  by (simp add: appliedDamage_def fun_eq_iff)

lemma updStep_take:
  "i < length (projectiles st) \<Longrightarrow> take i (projectiles (updStep rnd i st)) = take i (projectiles st)"
  by (simp add: updStep_projectiles splice1_def)

lemma updStep_drop:
  "i < length (projectiles st) \<Longrightarrow>
     drop i (projectiles (updStep rnd i st)) =
       filter (survives st) [moveProj (projectiles st ! i)] @ drop (Suc i) (projectiles st)"
  by (auto simp add: updStep_projectiles splice1_def survives_def drop_update_cancel
        Cons_nth_drop_Suc[symmetric] upd_conv_take_nth_drop)

lemma updLoop_projectiles:
  "n \<le> length (projectiles st) \<Longrightarrow>
     projectiles (updLoop rnd n st) =
       filter (survives st) (map moveProj (take n (projectiles st))) @ drop n (projectiles st)"
proof (induction n arbitrary: st)
  case 0
  then show ?case by simp
next
  case (Suc n)
  then have lt: "n < length (projectiles st)" by simp
  have le: "n \<le> length (projectiles (updStep rnd n st))" using lt by (rule updStep_length)
  show ?case
    using Suc.IH[OF le] lt
    by (simp add: updStep_take updStep_drop take_Suc_conv_app_nth)
qed

lemma updStep_hp:
  "i < length (projectiles st) \<Longrightarrow>
     hp (getPlayer s (updStep rnd i st)) =
       hp (getPlayer s st)
       - sum_list (map (appliedDamage st s) (filter (hitsOn st s) [moveProj (projectiles st ! i)]))"
  by (auto simp add: updStep_player hitsOn_def appliedDamage_def)

lemma updLoop_hp:
  "n \<le> length (projectiles st) \<Longrightarrow>
     hp (getPlayer s (updLoop rnd n st)) =
       hp (getPlayer s st)
       - sum_list (map (appliedDamage st s)
           (filter (hitsOn st s) (map moveProj (take n (projectiles st)))))"
proof (induction n arbitrary: st)
  case 0
  then show ?case by simp
next
  case (Suc n)
  then have lt: "n < length (projectiles st)" by simp
  have le: "n \<le> length (projectiles (updStep rnd n st))" using lt by (rule updStep_length)
  show ?case
    using Suc.IH[OF le] lt updStep_hp[OF lt, of s rnd]
    by (simp add: updStep_take take_Suc_conv_app_nth)
qed

lemma updStep_texts:
  "i < length (projectiles st) \<Longrightarrow>
     length (floatingTexts (updStep rnd i st)) =
       length (floatingTexts st)
       + length (filter (\<lambda>q. \<not> outOfBounds q \<and> collides st q) [moveProj (projectiles st ! i)])"
  by (auto simp add: updStep_def Let_def collides_def resolveHit_def split: option.splits)

lemma updLoop_texts:
  "n \<le> length (projectiles st) \<Longrightarrow>
     length (floatingTexts (updLoop rnd n st)) =
       length (floatingTexts st)
       + length (filter (\<lambda>q. \<not> outOfBounds q \<and> collides st q)
           (map moveProj (take n (projectiles st))))"
proof (induction n arbitrary: st)
  case 0
  then show ?case by simp
next
  case (Suc n)
  then have lt: "n < length (projectiles st)" by simp
  have le: "n \<le> length (projectiles (updStep rnd n st))" using lt by (rule updStep_length)
  show ?case
    using Suc.IH[OF le] lt updStep_texts[OF lt, of rnd]
    by (simp add: updStep_take take_Suc_conv_app_nth)
qed

text \<open>
  C4. One pass of updateProjectiles moves every projectile by its velocity (x += vx,
  y += vy, nothing else changes) and keeps, in order, exactly the moved projectiles that
  are neither out of bounds (x below -100 or above the canvas width plus 100) nor hitting
  the opposing hurtbox. So a projectile is removed on the first tick it is out of bounds,
  and a removed projectile is never processed again. Health changes only by the damage of
  the in-bounds hits and floating texts are created only for in-bounds hits: an
  out-of-bounds removal applies no damage and emits no text.
\<close>

theorem updateProjectiles_moves_and_bounds:
  "projectiles (updateProjectiles rnd st) =
      filter (\<lambda>q. \<not> outOfBounds q \<and> \<not> collides st q) (map moveProj (projectiles st))
   \<and> moveProj q = q \<lparr> proj_x := proj_x q + proj_vx q, proj_y := proj_y q + proj_vy q \<rparr>
   \<and> outOfBounds q = (proj_x q < - 100 \<or> proj_x q > 1280 + 100)
   \<and> hp (getPlayer s (updateProjectiles rnd st)) =
        hp (getPlayer s st)
        - sum_list (map (\<lambda>q. max 0 (actualDamage q (getPlayer s st)))
            (filter (\<lambda>q. \<not> outOfBounds q \<and> collides st q \<and> targetSide q = s)
               (map moveProj (projectiles st))))
   \<and> length (floatingTexts (updateProjectiles rnd st)) =
        length (floatingTexts st)
        + length (filter (\<lambda>q. \<not> outOfBounds q \<and> collides st q) (map moveProj (projectiles st)))"
  using updLoop_projectiles[of "length (projectiles st)" st rnd]
    updLoop_hp[of "length (projectiles st)" st s rnd]
    updLoop_texts[of "length (projectiles st)" st rnd]
  by (simp add: updateProjectiles_def survives_def[abs_def] hitsOn_def[abs_def]
        appliedDamage_def[abs_def] moveProj_def outOfBounds_def p_width_def CANVAS_WIDTH_def)

text \<open>
  C4 at a concrete state: of two punches in flight towards a player without hurtbox, the
  one at x = 640 moves to 655 and stays, the one at x = 1375 moves to 1390, beyond the
  margin at 1380, and is removed; no damage, no floating text.
\<close>

theorem updateProjectiles_moves_and_bounds_witness:
  "proj_x (punchProjectile SLeft (mkLandmark 0.5 0.5) ''a'') = 640
   \<and> projectiles (updateProjectiles (\<lambda>i. ''t'') flyingState)
       = [(punchProjectile SLeft (mkLandmark 0.5 0.5) ''a'') \<lparr> proj_x := 655 \<rparr>]
   \<and> hp (getPlayer SRight (updateProjectiles (\<lambda>i. ''t'') flyingState)) = 100
   \<and> length (floatingTexts (updateProjectiles (\<lambda>i. ''t'') flyingState)) = 0"
proof -
  have nc: "\<not> collides flyingState q" for q
    by (cases "targetSide q")
       (simp_all add: collides_def flyingState_def initPlayer_def)
  have f: "projectiles flyingState =
       [punchProjectile SLeft (mkLandmark 0.5 0.5) ''a'',
        (punchProjectile SLeft (mkLandmark 0.5 0.5) ''b'') \<lparr> proj_x := 1375 \<rparr>]"
    "floatingTexts flyingState = []" "hp (getPlayer SRight flyingState) = 100"
    by (simp_all add: flyingState_def initPlayer_def MAX_HP_def)
  show ?thesis
    using updateProjectiles_moves_and_bounds[of "\<lambda>i. ''t''" flyingState _ SRight]
    by (simp add: nc f punchProjectile_def moveProj_def outOfBounds_def Let_def const_defs)
qed

lemma targetSide_moveProj [simp]: "targetSide (moveProj q) = targetSide q"
  by (simp add: targetSide_def moveProj_def)

lemma collides_no_box:
  "boundingBox (getPlayer s st) = None \<Longrightarrow> targetSide q = s \<Longrightarrow> \<not> collides st q"
  by (simp add: collides_def)

lemma updStep_only_hp:
  "getPlayer s (updStep rnd i st) = (getPlayer s st) \<lparr> hp := hp (getPlayer s (updStep rnd i st)) \<rparr>"
  by (simp add: updStep_player)

lemma updLoop_only_hp:
  "n \<le> length (projectiles st) \<Longrightarrow>
     getPlayer s (updLoop rnd n st) = (getPlayer s st) \<lparr> hp := hp (getPlayer s (updLoop rnd n st)) \<rparr>"
proof (induction n arbitrary: st)
  case 0
  then show ?case by simp
next
  case (Suc n)
  then have lt: "n < length (projectiles st)" by simp
  have le: "n \<le> length (projectiles (updStep rnd n st))" using lt by (rule updStep_length)
  show ?case
  proof -
    have a: "getPlayer s (updLoop rnd (Suc n) st) =
          (getPlayer s (updStep rnd n st)) \<lparr> hp := hp (getPlayer s (updLoop rnd (Suc n) st)) \<rparr>"
      using Suc.IH[OF le] by simp
    show ?thesis
      by (subst a, subst updStep_only_hp) simp
  qed
qed

lemma filter_target_no_box:
  "boundingBox (getPlayer s st) = None \<Longrightarrow>
     filter (\<lambda>q. targetSide q = s) (filter (survives st) (map moveProj xs))
       = filter (\<lambda>q. \<not> outOfBounds q) (map moveProj (filter (\<lambda>q. targetSide q = s) xs))"
proof (induction xs)
  case Nil
  then show ?case by simp
next
  case (Cons a xs)
  have "targetSide a = s \<Longrightarrow> \<not> collides st (moveProj a)"
    using collides_no_box[OF Cons.prems, of "moveProj a"] by simp
  then show ?case using Cons by (auto simp: survives_def)
qed

text \<open>
  C10. When the hurtbox of a player is null, updateProjectiles leaves the record of that
  player unchanged (in particular its hp), the projectiles aimed at that player after the
  pass are exactly the moved ones that are still in bounds (none is removed by a
  collision), and every floating text created by the pass comes from a projectile aimed at
  the other player.
\<close>

theorem no_hurtbox_no_collision:
  assumes nobox: "boundingBox (getPlayer s st) = None"
  shows "getPlayer s (updateProjectiles rnd st) = getPlayer s st
   \<and> filter (\<lambda>q. targetSide q = s) (projectiles (updateProjectiles rnd st)) =
       filter (\<lambda>q. \<not> outOfBounds q) (map moveProj (filter (\<lambda>q. targetSide q = s) (projectiles st)))
   \<and> length (floatingTexts (updateProjectiles rnd st)) =
       length (floatingTexts st)
       + length (filter (\<lambda>q. targetSide q \<noteq> s \<and> \<not> outOfBounds q \<and> collides st q)
           (map moveProj (projectiles st)))"
proof (intro conjI)
  have nohit: "filter (hitsOn st s) xs = []" for xs
    using nobox by (auto simp: hitsOn_def filter_empty_conv dest: collides_no_box)
  have "hp (getPlayer s (updateProjectiles rnd st)) = hp (getPlayer s st)"
    using updLoop_hp[of "length (projectiles st)" st s rnd]
    by (simp add: updateProjectiles_def nohit)
  then show "getPlayer s (updateProjectiles rnd st) = getPlayer s st"
    using updLoop_only_hp[of "length (projectiles st)" st s rnd]
    by (simp add: updateProjectiles_def)
next
  have "filter (\<lambda>q. targetSide q = s) (filter (survives st) (map moveProj (projectiles st)))
        = filter (\<lambda>q. \<not> outOfBounds q) (map moveProj (filter (\<lambda>q. targetSide q = s) (projectiles st)))"
    by (rule filter_target_no_box[OF nobox])
  then show "filter (\<lambda>q. targetSide q = s) (projectiles (updateProjectiles rnd st)) =
       filter (\<lambda>q. \<not> outOfBounds q) (map moveProj (filter (\<lambda>q. targetSide q = s) (projectiles st)))"
    using updLoop_projectiles[of "length (projectiles st)" st rnd]
    by (simp add: updateProjectiles_def)
next
  have "filter (\<lambda>q. \<not> outOfBounds q \<and> collides st q) xs
        = filter (\<lambda>q. targetSide q \<noteq> s \<and> \<not> outOfBounds q \<and> collides st q) xs" for xs
    using nobox by (auto intro!: filter_cong dest: collides_no_box)
  then show "length (floatingTexts (updateProjectiles rnd st)) =
       length (floatingTexts st)
       + length (filter (\<lambda>q. targetSide q \<noteq> s \<and> \<not> outOfBounds q \<and> collides st q)
           (map moveProj (projectiles st)))"
    using updLoop_texts[of "length (projectiles st)" st rnd]
    by (simp add: updateProjectiles_def)
qed

text \<open>
  C10 at a concrete state: a punch of the right player flies towards the left player, who
  has no hurtbox; it persists, moved, and nothing else changes.
\<close>

theorem no_hurtbox_no_collision_witness:
  "boundingBox (getPlayer SLeft incomingState) = None
   \<and> getPlayer SLeft (updateProjectiles (\<lambda>i. ''t'') incomingState) = getPlayer SLeft incomingState
   \<and> filter (\<lambda>q. targetSide q = SLeft) (projectiles (updateProjectiles (\<lambda>i. ''t'') incomingState))
       = [moveProj (punchProjectile SRight (mkLandmark 0.5 0.5) ''r'')]
   \<and> length (floatingTexts (updateProjectiles (\<lambda>i. ''t'') incomingState)) = 0"
proof -
  have nb: "boundingBox (getPlayer SLeft incomingState) = None"
    by (simp add: incomingState_def initPlayer_def)
  have ps: "projectiles incomingState = [punchProjectile SRight (mkLandmark 0.5 0.5) ''r'']"
    by (simp add: incomingState_def)
  have ft: "floatingTexts incomingState = []" by (simp add: incomingState_def)
  show ?thesis
    using no_hurtbox_no_collision[OF nb, of "\<lambda>i. ''t''"] nb
    by (simp add: ps ft targetSide_def punchProjectile_def outOfBounds_def moveProj_def
          Let_def const_defs)
qed

lemma owner_moveProj [simp]: "owner (moveProj q) = owner q"
  by (simp add: moveProj_def)

lemma ownedBy_filter_map:
  "filter (\<lambda>q. owner q = side) (filter P (map moveProj xs))
     = filter P (map moveProj (filter (\<lambda>q. owner q = side) xs))"
  by (induction xs) simp_all

lemma drawSimulate_projectiles:
  "projectiles (drawSimulate frame st) =
     filter (survives (aiStep st)) (map moveProj (projectiles st))"
  using updLoop_projectiles[of "length (projectiles (aiStep st))" "aiStep st" "textIds frame"]
  by (simp add: drawSimulate_def Let_def updateProjectiles_def updateFloatingText_def)

lemma drawSimulate_charge:
  "isCharging (getPlayer s (drawSimulate frame st)) = isCharging (getPlayer s st)"
  "chargeLevel (getPlayer s (drawSimulate frame st)) = chargeLevel (getPlayer s st)"
proof -
  let ?a = "aiStep st"
  have a: "isCharging (getPlayer s ?a) = isCharging (getPlayer s st)"
    "chargeLevel (getPlayer s ?a) = chargeLevel (getPlayer s st)"
    by (simp_all add: aiStep_def)
  have u: "getPlayer s (updateProjectiles (textIds frame) ?a)
             = (getPlayer s ?a) \<lparr> hp := hp (getPlayer s (updateProjectiles (textIds frame) ?a)) \<rparr>"
    unfolding updateProjectiles_def by (rule updLoop_only_hp) simp
  have "isCharging (getPlayer s (updateProjectiles (textIds frame) ?a)) = isCharging (getPlayer s ?a)"
    "chargeLevel (getPlayer s (updateProjectiles (textIds frame) ?a)) = chargeLevel (getPlayer s ?a)"
    by (subst u, simp)+
  then show "isCharging (getPlayer s (drawSimulate frame st)) = isCharging (getPlayer s st)"
    "chargeLevel (getPlayer s (drawSimulate frame st)) = chargeLevel (getPlayer s st)"
    using a by (simp_all add: drawSimulate_def Let_def updateFloatingText_def)
qed

lemma drawSimulate_isAI:
  "isAI (getPlayer s (drawSimulate frame st)) = isAI (getPlayer s st)"
proof -
  let ?a = "aiStep st"
  have a: "isAI (getPlayer s ?a) = isAI (getPlayer s st)"
    by (simp add: aiStep_def)
  have u: "getPlayer s (updateProjectiles (textIds frame) ?a)
             = (getPlayer s ?a) \<lparr> hp := hp (getPlayer s (updateProjectiles (textIds frame) ?a)) \<rparr>"
    unfolding updateProjectiles_def by (rule updLoop_only_hp) simp
  have "isAI (getPlayer s (updateProjectiles (textIds frame) ?a)) = isAI (getPlayer s ?a)"
    by (subst u, simp)
  then show ?thesis
    using a by (simp add: drawSimulate_def Let_def updateFloatingText_def)
qed

section \<open>The damage table\<close>

lemma conforms_moveProj [simp]: "conforms (moveProj q) = conforms q"
  by (simp add: conforms_def moveProj_def)

lemma list_all_splice1: "list_all P xs \<Longrightarrow> list_all P (splice1 i xs)"
  by (auto simp: splice1_def list_all_iff dest: in_set_takeD in_set_dropD)

lemma list_all_update: "list_all P xs \<Longrightarrow> P x \<Longrightarrow> list_all P (xs[i := x])"
  by (auto simp: list_all_iff dest!: subsetD[OF set_update_subset_insert])

lemma allConform_closed: "stepClosed (\<lambda>_ _. True) (\<lambda>_. allConform)"
  unfolding stepClosed_def allConform_def
proof (intro conjI allI impI)
  fix now :: real and side lw rw ls rs rid and st :: GameState
  assume "list_all conforms (projectiles st)"
  then show "list_all conforms (projectiles (specialBody side lw rw ls rs now rid st))"
    by (simp add: specialBody_def Let_def fireSpecial_def conforms_def specDamage_def
          DAMAGE_SPECIAL_def DAMAGE_SPECIAL_BLOCK_def)
next
  fix side lw rw now rid and st :: GameState
  assume "list_all conforms (projectiles st)"
  then show "list_all conforms (projectiles (swordBody side lw rw now rid st))"
    by (simp add: swordBody_def Let_def swordProjectile_def conforms_def specDamage_def
          DAMAGE_SWORD_def DAMAGE_SWORD_BLOCK_def)
next
  fix side hs wr sh scale now rid and st :: GameState
  assume "list_all conforms (projectiles st)"
  then show "list_all conforms (projectiles (handBody side hs wr sh scale now rid st))"
    by (simp add: handBody_def Let_def punchProjectile_def conforms_def specDamage_def
          DAMAGE_STANDARD_def)
next
  fix rnd i and st :: GameState
  assume a: "list_all conforms (projectiles st)" and i: "i < length (projectiles st)"
  have "conforms (projectiles st ! i)" using a i by (simp add: list_all_length)
  then show "list_all conforms (projectiles (updStep rnd i st))"
    using a by (simp add: updStep_projectiles list_all_splice1 list_all_update)
qed (simp_all add: shieldBody_def)

lemma reachable_allConform: "reachable st \<Longrightarrow> allConform st"
proof (induction rule: reachable.induct)
  case r_init
  show ?case by (simp add: allConform_def)
next
  case (r_tick st frame st')
  have "holdsOut allConform allConform (draw frame st)"
    by (rule draw_untimed[OF allConform_closed r_tick.IH])
  then show ?case by (simp add: r_tick.hyps)
next
  case (r_throw st frame e st')
  have "holdsOut allConform allConform (draw frame st)"
    by (rule draw_untimed[OF allConform_closed r_throw.IH])
  then show ?case by (simp add: r_throw.hyps)
next
  case (r_reset st)
  then show ?case by (simp add: allConform_def resetGame_def)
qed

lemma presim_allConform:
  assumes r: "reachable st" and d: "drawDetect frame st = Done (dl, dr, st1)"
  shows "allConform (aiStep (drawUndetected dl dr st1))"
proof -
  have "holdsOut (\<lambda>(dl, dr, s). allConform s) allConform (drawDetect frame st)"
    using drawDetect_closed[where R="\<lambda>_ _. True" and P="\<lambda>_. allConform" and T=0 and T'=0
        and frame=frame and st=st] allConform_closed reachable_allConform[OF r] by simp
  then have "allConform st1" by (simp add: d)
  then have "allConform (drawUndetected dl dr st1)"
    using drawUndetected_closed[where R="\<lambda>_ _. True" and P="\<lambda>_. allConform" and T=0]
      allConform_closed by simp
  then show ?thesis
    using sc_updateAI[where R="\<lambda>_ _. True" and P="\<lambda>_. allConform" and T=0] allConform_closed
    by (simp add: aiStep_def)
qed

lemma applied_spec:
  "conforms q \<Longrightarrow> max 0 (actualDamage q pl) = specDamage (ptype q) (isShielding pl)"
  by (cases "ptype q") (auto simp: conforms_def actualDamage_def specDamage_def)

text \<open>
  C5. In the projectile pass of any frame callback started in a reachable state (st2 is the
  state the pass runs on: after classification, the handling of undetected sides and the AI
  step), the health of each player drops by the sum, over the in-bounds projectiles hitting
  that player, of the damage the table gives for the kind of the projectile: the blocked
  value when the player is shielding, the direct value otherwise. The table is standard
  2/0, special 10/3, sword 3/1, and for every kind the blocked value is strictly less than
  the direct one.
\<close>

theorem hit_damage_follows_table:
  assumes r: "reachable st" and d: "drawDetect frame st = Done (dl, dr, st1)"
    and st2: "st2 = aiStep (drawUndetected dl dr st1)"
  shows "hp (getPlayer s (updateProjectiles rnd st2)) =
           hp (getPlayer s st2)
           - sum_list (map (\<lambda>q. specDamage (ptype q) (isShielding (getPlayer s st2)))
               (filter (\<lambda>q. \<not> outOfBounds q \<and> collides st2 q \<and> targetSide q = s)
                  (map moveProj (projectiles st2))))
         \<and> specDamage Standard False = 2 \<and> specDamage Standard True = 0
         \<and> specDamage Special False = 10 \<and> specDamage Special True = 3
         \<and> specDamage Sword False = 3 \<and> specDamage Sword True = 1
         \<and> specDamage k True < specDamage k False"
proof -
  have c: "list_all conforms (map moveProj (projectiles st2))"
    using presim_allConform[OF r d] st2 by (simp add: allConform_def list_all_iff)
  let ?H = "\<lambda>q. \<not> outOfBounds q \<and> collides st2 q \<and> targetSide q = s"
  have eq: "map (\<lambda>q. max 0 (actualDamage q (getPlayer s st2))) (filter ?H (map moveProj (projectiles st2)))
        = map (\<lambda>q. specDamage (ptype q) (isShielding (getPlayer s st2)))
            (filter ?H (map moveProj (projectiles st2)))"
    by (rule map_cong[OF refl]) (use c in \<open>auto simp: list_all_iff applied_spec\<close>)
  have "hp (getPlayer s (updateProjectiles rnd st2)) =
           hp (getPlayer s st2)
           - sum_list (map (\<lambda>q. max 0 (actualDamage q (getPlayer s st2)))
               (filter ?H (map moveProj (projectiles st2))))"
    using updLoop_hp[of "length (projectiles st2)" st2 s rnd]
    by (simp add: updateProjectiles_def hitsOn_def[abs_def] appliedDamage_def[abs_def])
  then have "hp (getPlayer s (updateProjectiles rnd st2)) =
           hp (getPlayer s st2)
           - sum_list (map (\<lambda>q. specDamage (ptype q) (isShielding (getPlayer s st2)))
               (filter ?H (map moveProj (projectiles st2))))"
    by (simp only: eq)
  moreover have "specDamage k True < specDamage k False"
    by (cases k) (simp_all add: specDamage_def)
  ultimately show ?thesis by (simp add: specDamage_def)
qed

text \<open>
  C5 at a concrete frame: from the initial state the left player punches at the height of
  the AI target; the standard projectile hits on the same tick and the unshielded target
  goes from 100 to 98.
\<close>

theorem hit_damage_follows_table_witness:
  "reachable initState
   \<and> drawDetect (frameAt [hitPose] 1000) initState
       = Done (True, False, runPlayer SLeft [(hitPose, 1000)] initState)
   \<and> projectiles (aiStep (drawUndetected True False (runPlayer SLeft [(hitPose, 1000)] initState)))
       = [punchProjectile SLeft (hitPose ! 15) ''l'']
   \<and> hp (getPlayer SRight
         (aiStep (drawUndetected True False (runPlayer SLeft [(hitPose, 1000)] initState)))) = 100
   \<and> hp (getPlayer SRight (updateProjectiles (\<lambda>i. ''t'')
         (aiStep (drawUndetected True False (runPlayer SLeft [(hitPose, 1000)] initState))))) = 98"
proof -
  let ?S1 = "runPlayer SLeft [(hitPose, 1000)] initState"
  let ?S2 = "aiStep (drawUndetected True False ?S1)"
  let ?q = "moveProj (punchProjectile SLeft (hitPose ! 15) ''l'')"
  have d: "drawDetect (frameAt [hitPose] 1000) initState = Done (True, False, ?S1)"
    by (simp add: drawDetect_def frameAt_def hitPose_def player_eval)
  have ps: "projectiles ?S2 = [punchProjectile SLeft (hitPose ! 15) ''l'']"
    by (simp add: hitPose_def player_eval)
  have h: "hp (getPlayer SRight ?S2) = 100"
    by (simp add: aiStep_def drawUndetected_def Let_def undetect_def resetPlayerAction_def
          players_as_getPlayer hitPose_def player_eval MAX_HP_def)
  have c: "collides ?S2 ?q"
    by (simp add: collides_def targetSide_def punchProjectile_def moveProj_def insideBox_def
          aiStep_def drawUndetected_def updateAI_box Let_def undetect_def resetPlayerAction_def
          players_as_getPlayer hitPose_def player_eval const_defs)
  have sh: "\<not> isShielding (getPlayer SRight ?S2)"
    by (simp add: aiStep_def drawUndetected_def Let_def undetect_def resetPlayerAction_def
          players_as_getPlayer hitPose_def player_eval)
  have o: "\<not> outOfBounds ?q" "targetSide ?q = SRight" "ptype ?q = Standard"
    by (simp_all add: outOfBounds_def targetSide_def punchProjectile_def moveProj_def Let_def
          hitPose_def const_defs)
  have f: "filter (\<lambda>q. \<not> outOfBounds q \<and> collides ?S2 q \<and> targetSide q = SRight)
             (map moveProj (projectiles ?S2)) = [?q]"
    unfolding ps using c o by simp
  have "hp (getPlayer SRight (updateProjectiles (\<lambda>i. ''t'') ?S2)) =
          hp (getPlayer SRight ?S2)
          - sum_list (map (\<lambda>q. specDamage (ptype q) (isShielding (getPlayer SRight ?S2)))
               (filter (\<lambda>q. \<not> outOfBounds q \<and> collides ?S2 q \<and> targetSide q = SRight)
                  (map moveProj (projectiles ?S2))))"
    using hit_damage_follows_table[OF r_init d refl, of SRight "\<lambda>i. ''t''"] by blast
  then have "hp (getPlayer SRight (updateProjectiles (\<lambda>i. ''t'') ?S2)) = 98"
    unfolding f h using sh o(3) by (simp add: specDamage_def)
  then show ?thesis using r_init d ps h by blast
qed

section \<open>The special charge\<close>

lemma detectSword_kept:
  "chargeKept s X c v st \<Longrightarrow>
     holdsOut (chargeKept s X c v) (chargeKept s X c v) (detectSword side lms now rid st)"
  unfolding detectSword_def Let_def
  by (auto intro!: holdsOut_deref
        simp: chargeKept_def specialsOf_def swordBody_def Let_def swordProjectile_def)

lemma checkHand_kept:
  "chargeKept s X c v st \<Longrightarrow>
     holdsOut (chargeKept s X c v) (chargeKept s X c v)
       (checkHand side hs wrist shoulder hip scale now rid st)"
  unfolding checkHand_def Let_def
  by (auto intro!: holdsOut_deref
        simp: chargeKept_def specialsOf_def handBody_def Let_def punchProjectile_def)

lemma detectPunch_kept:
  "chargeKept s X c v st \<Longrightarrow>
     holdsOut (chargeKept s X c v) (chargeKept s X c v) (detectPunch side lms env st)"
  unfolding detectPunch_def Let_def
  by (intro holdsOut_deref holdsOut_obind[where Q="chargeKept s X c v"] checkHand_kept) simp_all

lemma afterSpecial_kept:
  assumes k: "chargeKept s X c v st4"
  shows "holdsOut (chargeKept s X c v) (chargeKept s X c v) (afterSpecial side lms env st4)"
  unfolding afterSpecial_def
  apply (rule holdsOut_obind[OF detectSword_kept[OF k]])
  apply (rule holdsOut_obind[where Q="chargeKept s X c v"])
   apply (simp add: detectPunch_kept Let_def)
  apply (rule drawSkeleton_closed, assumption)
  done

lemma holding_after_shield:
  "isHoldingPose (getPlayer side (shieldBody side (lms ! 15) (lms ! 16) (lms ! 11) (lms ! 12)
       (updPlayer side (\<lambda>pl. pl \<lparr> boundingBox := b \<rparr>)
          (updPlayer side (\<lambda>pl. pl \<lparr> detected := True \<rparr>) st))))
     (lms ! 15) (lms ! 16) (lms ! 11) (lms ! 12) = poseHeld (getPlayer side st) lms"
  by (auto simp add: isHoldingPose_def poseHeld_def shieldBody_player)

lemma specialBody_held:
  assumes "isHoldingPose (getPlayer side st) lw rw ls rs"
  shows "specialsOf (specialBody side lw rw ls rs now rid st) = specialsOf st"
    and "isCharging (getPlayer side (specialBody side lw rw ls rs now rid st))"
  using assms by (simp_all add: specialBody_def Let_def specialsOf_def)

lemma specialBody_release:
  assumes "\<not> isHoldingPose (getPlayer side st) lw rw ls rs"
    and "isCharging (getPlayer side st)" and "1 \<le> chargeLevel (getPlayer side st)"
  shows "specialsOf (specialBody side lw rw ls rs now rid st) =
           specialsOf st @ [last (projectiles (fireSpecial side lw rw rid st))]"
    and "\<not> isCharging (getPlayer side (specialBody side lw rw ls rs now rid st))"
    and "chargeLevel (getPlayer side (specialBody side lw rw ls rs now rid st)) = 0"
  using assms by (simp_all add: specialBody_def Let_def specialsOf_def fireSpecial_def)

lemma fireSpecial_last:
  "ptype (last (projectiles (fireSpecial side lw rw rid st))) = Special"
  "damage (last (projectiles (fireSpecial side lw rw rid st))) = 10"
  "blockDamage (last (projectiles (fireSpecial side lw rw rid st))) = 3"
  "owner (last (projectiles (fireSpecial side lw rw rid st))) = side"
  by (simp_all add: fireSpecial_def Let_def DAMAGE_SPECIAL_def DAMAGE_SPECIAL_BLOCK_def)

text \<open>
  C3. For a call of processPlayer that returns, on a player who is charging: while the
  pose is held (the asymmetric pose, no shield geometry, no sword stance) no special
  projectile is added, whatever the charge level, and the player keeps charging; when the
  pose is not held and the charge level is at least 1, exactly one special projectile is
  added, with damage 10 and blocked damage 3, owned by the player, and the player ends
  with isCharging false and chargeLevel 0.
\<close>

theorem special_fires_only_on_release:
  assumes dn: "processPlayer side lms env st = Done st'"
    and charging: "isCharging (getPlayer side st)"
  shows "(poseHeld (getPlayer side st) lms \<longrightarrow>
            specialsOf st' = specialsOf st \<and> isCharging (getPlayer side st'))
       \<and> (\<not> poseHeld (getPlayer side st) lms \<and> 1 \<le> chargeLevel (getPlayer side st) \<longrightarrow>
            (\<exists>q. specialsOf st' = specialsOf st @ [q] \<and> ptype q = Special \<and> damage q = 10
                 \<and> blockDamage q = 3 \<and> owner q = side)
            \<and> \<not> isCharging (getPlayer side st') \<and> chargeLevel (getPlayer side st') = 0)"
proof -
  have len: "17 \<le> length lms" using dn by (rule processPlayer_Done_length)
  let ?st3 = "shieldBody side (lms ! 15) (lms ! 16) (lms ! 11) (lms ! 12)
       (updPlayer side (\<lambda>pl. pl \<lparr> boundingBox := Some (hitbox lms) \<rparr>)
          (updPlayer side (\<lambda>pl. pl \<lparr> detected := True \<rparr>) st))"
  let ?st4 = "specialBody side (lms ! 15) (lms ! 16) (lms ! 11) (lms ! 12)
                  (nowSpecial env) (idSpecial env) ?st3"
  have hold: "isHoldingPose (getPlayer side ?st3) (lms ! 15) (lms ! 16) (lms ! 11) (lms ! 12)
                = poseHeld (getPlayer side st) lms"
    by (rule holding_after_shield)
  have st3: "specialsOf ?st3 = specialsOf st" "isCharging (getPlayer side ?st3)"
    "chargeLevel (getPlayer side ?st3) = chargeLevel (getPlayer side st)"
    using charging by (simp_all add: specialsOf_def shieldBody_player)
  have tail: "chargeKept side X c v ?st4 \<Longrightarrow> chargeKept side X c v st'" for X c v
    using afterSpecial_kept[of side X c v ?st4 side lms env]
      dn[unfolded processPlayer_unfold[OF len]]
    by simp
  show ?thesis
  proof (intro conjI impI)
    assume h: "poseHeld (getPlayer side st) lms"
    then have "chargeKept side (specialsOf st) True (chargeLevel (getPlayer side ?st4)) ?st4"
      using specialBody_held[of side ?st3 "lms ! 15" "lms ! 16" "lms ! 11" "lms ! 12"] hold st3
      by (simp add: chargeKept_def)
    from tail[OF this]
    show "specialsOf st' = specialsOf st" "isCharging (getPlayer side st')"
      by (simp_all add: chargeKept_def)
  next
    assume h: "\<not> poseHeld (getPlayer side st) lms \<and> 1 \<le> chargeLevel (getPlayer side st)"
    let ?q = "last (projectiles (fireSpecial side (lms ! 15) (lms ! 16) (idSpecial env) ?st3))"
    have "chargeKept side (specialsOf st @ [?q]) False 0 ?st4"
      using specialBody_release[of side ?st3 "lms ! 15" "lms ! 16" "lms ! 11" "lms ! 12"
          "nowSpecial env" "idSpecial env"] hold st3 h
      by (simp add: chargeKept_def)
    from tail[OF this]
    have k: "specialsOf st' = specialsOf st @ [?q]" "\<not> isCharging (getPlayer side st')"
      "chargeLevel (getPlayer side st') = 0"
      by (simp_all add: chargeKept_def)
    show "\<exists>q. specialsOf st' = specialsOf st @ [q] \<and> ptype q = Special \<and> damage q = 10
                 \<and> blockDamage q = 3 \<and> owner q = side"
      using k(1) fireSpecial_last[of side "lms ! 15" "lms ! 16" "idSpecial env" ?st3] by blast
    show "\<not> isCharging (getPlayer side st')" "chargeLevel (getPlayer side st') = 0"
      using k by simp_all
  qed
qed

text \<open>
  C3 at a concrete run: a charge started at 1000 ms and held at 3000 ms is full (level 1)
  and has fired nothing; released at 3016 ms it fires one special projectile and is
  cleared.
\<close>

theorem special_fires_only_on_release_witness:
  "processPlayer SLeft twoPunchPose (envAt 3016)
       (runPlayer SLeft [(chargePose, 1000), (chargePose, 3000)] initState)
     = Done (runPlayer SLeft [(chargePose, 1000), (chargePose, 3000), (twoPunchPose, 3016)] initState)
   \<and> isCharging (getPlayer SLeft (runPlayer SLeft [(chargePose, 1000), (chargePose, 3000)] initState))
   \<and> \<not> poseHeld (getPlayer SLeft (runPlayer SLeft [(chargePose, 1000), (chargePose, 3000)] initState))
         twoPunchPose
   \<and> chargeLevel (getPlayer SLeft (runPlayer SLeft [(chargePose, 1000), (chargePose, 3000)] initState)) = 1
   \<and> specialsOf (runPlayer SLeft [(chargePose, 1000), (chargePose, 3000)] initState) = []
   \<and> length (specialsOf
        (runPlayer SLeft [(chargePose, 1000), (chargePose, 3000), (twoPunchPose, 3016)] initState)) = 1
   \<and> \<not> isCharging (getPlayer SLeft
        (runPlayer SLeft [(chargePose, 1000), (chargePose, 3000), (twoPunchPose, 3016)] initState))
   \<and> chargeLevel (getPlayer SLeft
        (runPlayer SLeft [(chargePose, 1000), (chargePose, 3000), (twoPunchPose, 3016)] initState)) = 0"
proof -
  let ?S = "runPlayer SLeft [(chargePose, 1000), (chargePose, 3000)] initState"
  let ?S' = "runPlayer SLeft [(chargePose, 1000), (chargePose, 3000), (twoPunchPose, 3016)] initState"
  have h1: "processPlayer SLeft twoPunchPose (envAt 3016) ?S = Done ?S'"
    by (simp add: chargePose_def twoPunchPose_def player_eval2)
  have h2: "isCharging (getPlayer SLeft ?S)"
    by (simp add: chargePose_def player_eval2)
  have h3: "\<not> poseHeld (getPlayer SLeft ?S) twoPunchPose"
    by (simp add: poseHeld_def twoPunchPose_def isSpecialPoseRaw_def)
  have h4: "chargeLevel (getPlayer SLeft ?S) = 1"
    by (simp add: chargePose_def player_eval2)
  have h5: "specialsOf ?S = []"
    by (simp add: specialsOf_def chargePose_def player_eval2)
  from special_fires_only_on_release[OF h1 h2] h3 h4 h5
  have "(\<exists>q. specialsOf ?S' = [q]) \<and> \<not> isCharging (getPlayer SLeft ?S')
        \<and> chargeLevel (getPlayer SLeft ?S') = 0"
    by auto
  then show ?thesis using h1 h2 h3 h4 h5 by auto
qed









section \<open>Punches\<close>





lemma checkHand_cooldown_unchanged:
  "now - lastPunchTime (getPlayer side st) < PUNCH_COOLDOWN \<Longrightarrow>
     checkHand side hs wrist shoulder hip scale now rid st = Done st"
  by (simp add: checkHand_def Let_def)

text \<open>
  C7, the code at a failing input. The left wrist is at relative position (-0.4, 0) at 1000
  ms (a punch fires), at (-0.35, 0) at 1200 ms (inside the cooldown, so checkHand returns
  before it stores the position) and still at (-0.35, 0) at 1400 ms. After the second tick
  the stored baseline is still the position of the first; the speed between the second and
  the third tick is 0; yet the third tick fires a punch, its speed being measured against
  the stale baseline.
\<close>

theorem stale_baseline_fires_punch:
  "pw_left (prevWrists (getPlayer SLeft
       (runPlayer SLeft [(twoPunchPose, 1000), (nearPunchPose, 1200)] initState)))
     = relWrist (twoPunchPose ! 15) (twoPunchPose ! 11)
   \<and> relWrist (nearPunchPose ! 15) (nearPunchPose ! 11)
       \<noteq> relWrist (twoPunchPose ! 15) (twoPunchPose ! 11)
   \<and> handSpeed (relWrist (nearPunchPose ! 15) (nearPunchPose ! 11))
        (nearPunchPose ! 15) (nearPunchPose ! 11) = 0
   \<and> projectiles (runPlayer SLeft
         [(twoPunchPose, 1000), (nearPunchPose, 1200), (nearPunchPose, 1400)] initState)
     = projectiles (runPlayer SLeft [(twoPunchPose, 1000), (nearPunchPose, 1200)] initState)
       @ [punchProjectile SLeft (nearPunchPose ! 15) ''l'']"
  by (simp add: twoPunchPose_def nearPunchPose_def player_eval)

section \<open>Loss of detection\<close>

lemma detectShield_sideKept:
  "side \<noteq> other \<Longrightarrow> sideKept side pl ps st \<Longrightarrow>
     holdsOut (sideKept side pl ps) (sideKept side pl ps) (detectShield other lms st)"
  unfolding detectShield_def
  by (intro holdsOut_deref) (simp_all add: sideKept_def ownedBy_def shieldBody_player)

lemma detectSpecial_sideKept:
  "side \<noteq> other \<Longrightarrow> sideKept side pl ps st \<Longrightarrow>
     holdsOut (sideKept side pl ps) (sideKept side pl ps) (detectSpecial other lms now rid st)"
  unfolding detectSpecial_def
  by (intro holdsOut_deref)
     (simp_all add: sideKept_def ownedBy_def specialBody_def Let_def fireSpecial_def)

lemma detectSword_sideKept:
  "side \<noteq> other \<Longrightarrow> sideKept side pl ps st \<Longrightarrow>
     holdsOut (sideKept side pl ps) (sideKept side pl ps) (detectSword other lms now rid st)"
  unfolding detectSword_def Let_def
  by (auto intro!: holdsOut_deref
        simp: sideKept_def ownedBy_def swordBody_def Let_def swordProjectile_def)

lemma checkHand_sideKept:
  "side \<noteq> other \<Longrightarrow> sideKept side pl ps st \<Longrightarrow>
     holdsOut (sideKept side pl ps) (sideKept side pl ps)
       (checkHand other hs wrist shoulder hip scale now rid st)"
  unfolding checkHand_def Let_def
  by (auto intro!: holdsOut_deref
        simp: sideKept_def ownedBy_def handBody_def Let_def punchProjectile_def)

lemma detectPunch_sideKept:
  "side \<noteq> other \<Longrightarrow> sideKept side pl ps st \<Longrightarrow>
     holdsOut (sideKept side pl ps) (sideKept side pl ps) (detectPunch other lms env st)"
  unfolding detectPunch_def Let_def
  by (intro holdsOut_deref holdsOut_obind[where Q="sideKept side pl ps"] checkHand_sideKept)
     simp_all

lemma processPlayer_sideKept:
  assumes ne: "side \<noteq> other" and k: "sideKept side pl ps st"
  shows "holdsOut (sideKept side pl ps) (sideKept side pl ps) (processPlayer other lms env st)"
proof -
  let ?K = "sideKept side pl ps"
  let ?st2 = "updPlayer other (\<lambda>pl. pl \<lparr> boundingBox := Some (hitbox lms) \<rparr>)
                (updPlayer other (\<lambda>pl. pl \<lparr> detected := True \<rparr>) st)"
  have k2: "?K ?st2" using ne k by (simp add: sideKept_def ownedBy_def)
  show ?thesis
    unfolding processPlayer_def Let_def
    apply (rule holdsOut_obind[OF detectShield_sideKept[OF ne k2]])
    apply (rule holdsOut_obind[OF detectSpecial_sideKept[OF ne]], assumption)
    apply (rule holdsOut_obind[OF detectSword_sideKept[OF ne]], assumption)
    apply (rule holdsOut_obind[where Q="?K"])
     apply (simp add: detectPunch_sideKept[OF ne])
    apply (rule drawSkeleton_closed, assumption)
    done
qed

lemma forEachPose_undetected:
  "(\<not> dl \<longrightarrow> sideKept SLeft pl ps st) \<Longrightarrow> (\<not> dr \<longrightarrow> sideKept SRight pr qs st) \<Longrightarrow>
     holdsOut (\<lambda>(dl', dr', s'). (\<not> dl' \<longrightarrow> sideKept SLeft pl ps s')
                              \<and> (\<not> dr' \<longrightarrow> sideKept SRight pr qs s'))
       (\<lambda>_. True) (forEachPose ev k poses dl dr st)"
proof (induction poses arbitrary: k dl dr st)
  case Nil
  then show ?case by simp
next
  case (Cons pose rest)
  show ?case
  proof (cases "snd pose > 0.5")
    case True
    have "holdsOut (\<lambda>s'. \<not> dr \<longrightarrow> sideKept SRight pr qs s') (\<lambda>_. True)
            (processPlayer SLeft (fst pose) (ev k) st)"
    proof (cases dr)
      case True
      then show ?thesis by (cases "processPlayer SLeft (fst pose) (ev k) st") simp_all
    next
      case False
      then have "sideKept SRight pr qs st" using Cons.prems by simp
      from processPlayer_sideKept[OF _ this, of SLeft "fst pose" "ev k"]
      show ?thesis by (rule holdsOut_mono) simp_all
    qed
    then show ?thesis
      unfolding forEachPose.simps Let_def using True
      by (auto intro!: holdsOut_obind[where Q="\<lambda>s'. \<not> dr \<longrightarrow> sideKept SRight pr qs s'"] Cons.IH)
  next
    case False
    have "holdsOut (\<lambda>s'. \<not> dl \<longrightarrow> sideKept SLeft pl ps s') (\<lambda>_. True)
            (processPlayer SRight (fst pose) (ev k) st)"
    proof (cases dl)
      case True
      then show ?thesis by (cases "processPlayer SRight (fst pose) (ev k) st") simp_all
    next
      case False
      then have "sideKept SLeft pl ps st" using Cons.prems by simp
      from processPlayer_sideKept[OF _ this, of SRight "fst pose" "ev k"]
      show ?thesis by (rule holdsOut_mono) simp_all
    qed
    then show ?thesis
      unfolding forEachPose.simps Let_def using False
      by (auto intro!: holdsOut_obind[where Q="\<lambda>s'. \<not> dl \<longrightarrow> sideKept SLeft pl ps s'"] Cons.IH)
  qed
qed

lemma drawDetect_undetected:
  assumes d: "drawDetect frame st = Done (dl, dr, st1)"
  shows "(\<not> dl \<longrightarrow> getPlayer SLeft st1 = getPlayer SLeft st \<and> ownedBy SLeft st1 = ownedBy SLeft st)
       \<and> (\<not> dr \<longrightarrow> getPlayer SRight st1 = getPlayer SRight st \<and> ownedBy SRight st1 = ownedBy SRight st)"
proof -
  let ?Q = "\<lambda>(dl', dr', s'). (\<not> dl' \<longrightarrow> sideKept SLeft (getPlayer SLeft st) (ownedBy SLeft st) s')
                              \<and> (\<not> dr' \<longrightarrow> sideKept SRight (getPlayer SRight st) (ownedBy SRight st) s')"
  have fe: "holdsOut ?Q (\<lambda>_. True) (forEachPose (envs frame) 0 poses False False st)" for poses
    by (rule forEachPose_undetected) (simp_all add: sideKept_def)
  have q0: "?Q (False, False, st)" by (simp add: sideKept_def)
  have mk: "holdsOut (\<lambda>_. True) (\<lambda>_. True) (mkPoses ls st)" for ls
    by (cases "mkPoses ls st") simp_all
  have "holdsOut ?Q (\<lambda>_. True) (drawDetect frame st)"
  proof (cases "poseResults frame")
    case None
    then show ?thesis using q0 by (simp add: drawDetect_def)
  next
    case (Some ls)
    show ?thesis
    proof (cases "length ls > 0")
      case True
      then show ?thesis
        unfolding drawDetect_def Some
        by (simp only: option.case if_True) (rule holdsOut_obind[OF mk], rule fe)
    next
      case False
      then show ?thesis using q0 by (simp add: drawDetect_def Some)
    qed
  qed
  then show ?thesis using d by (simp add: sideKept_def)
qed

lemma drawUndetected_left:
  "\<not> dl \<Longrightarrow> \<not> isCharging (getPlayer SLeft (drawUndetected dl dr st))
            \<and> chargeLevel (getPlayer SLeft (drawUndetected dl dr st)) = 0"
  by (simp add: drawUndetected_def Let_def undetect_def resetPlayerAction_def)

lemma aiIdle_alt:
  "aiIdle st = (isAI (getPlayer SRight st) \<longrightarrow>
        \<not> isCharging (getPlayer SRight st) \<and> chargeLevel (getPlayer SRight st) = 0)"
  by (simp add: aiIdle_def players_as_getPlayer)

lemma drawUndetected_aiIdle:
  assumes "dr \<or> aiIdle st"
  shows "aiIdle (drawUndetected dl dr st)"
  using assms
  by (auto simp: aiIdle_def drawUndetected_def Let_def undetect_def resetPlayerAction_def)

lemma completed_aiIdle: "completed st \<Longrightarrow> aiIdle st"
proof (induction rule: completed.induct)
  case c_init
  show ?case by (simp add: aiIdle_def initState_def initPlayer_def)
next
  case (c_tick st frame st')
  show ?case
  proof (cases "isGameOver st")
    case True
    then show ?thesis using c_tick by (simp add: draw_def)
  next
    case False
    then obtain dl dr st1 where d: "drawDetect frame st = Done (dl, dr, st1)"
      and s': "st' = drawSimulate frame (drawUndetected dl dr st1)"
      using c_tick.hyps(2)
      by (cases "drawDetect frame st") (auto simp: draw_def)
    have "dr \<or> aiIdle st1"
    proof (cases dr)
      case True
      then show ?thesis by simp
    next
      case False
      then have "getPlayer SRight st1 = getPlayer SRight st"
        using drawDetect_undetected[OF d] by simp
      then show ?thesis using c_tick.IH by (simp add: aiIdle_alt)
    qed
    then have "aiIdle (drawUndetected dl dr st1)" by (rule drawUndetected_aiIdle)
    then show ?thesis
      unfolding s' aiIdle_alt by (simp add: drawSimulate_isAI drawSimulate_charge)
  qed
next
  case (c_reset st)
  then show ?case by (simp add: aiIdle_def resetGame_def)
qed

lemma drawUndetected_right_idle:
  "\<not> dr \<Longrightarrow> aiIdle st \<Longrightarrow>
     \<not> isCharging (getPlayer SRight (drawUndetected dl dr st))
     \<and> chargeLevel (getPlayer SRight (drawUndetected dl dr st)) = 0"
  by (auto simp add: aiIdle_def drawUndetected_def Let_def undetect_def resetPlayerAction_def
        players_as_getPlayer)

text \<open>
  C9. In a state reached through completed callbacks, when the game is not over and no
  body is assigned to a side on a tick, the callback returns with that player not charging
  and at charge level 0, whatever the level was; the classification step adds no
  projectile owned by that side, and the projectiles of that side after the tick are the
  moved, surviving ones it had before: no special projectile is spawned.
\<close>

theorem undetected_player_loses_charge:
  assumes cp: "completed st" and go: "\<not> isGameOver st"
    and d: "drawDetect frame st = Done (dl, dr, st1)"
    and und: "(side = SLeft \<and> \<not> dl) \<or> (side = SRight \<and> \<not> dr)"
  shows "\<exists>st'. draw frame st = Done st'
           \<and> \<not> isCharging (getPlayer side st') \<and> chargeLevel (getPlayer side st') = 0
           \<and> ownedBy side st1 = ownedBy side st
           \<and> ownedBy side st' =
               filter (survives (aiStep (drawUndetected dl dr st1)))
                 (map moveProj (ownedBy side st))"
proof -
  let ?u = "drawUndetected dl dr st1"
  let ?st' = "drawSimulate frame ?u"
  have dr: "draw frame st = Done ?st'" using go d by (simp add: draw_def)
  have kept: "getPlayer side st1 = getPlayer side st \<and> ownedBy side st1 = ownedBy side st"
    using drawDetect_undetected[OF d] und by auto
  have "\<not> isCharging (getPlayer side ?u) \<and> chargeLevel (getPlayer side ?u) = 0"
  proof (cases side)
    case SLeft
    then show ?thesis using und drawUndetected_left[of dl dr st1] by simp
  next
    case SRight
    then have ndr: "\<not> dr" using und by simp
    have "aiIdle st1"
      using completed_aiIdle[OF cp] kept SRight by (simp add: aiIdle_alt)
    then show ?thesis using SRight drawUndetected_right_idle[OF ndr, of st1 dl] by simp
  qed
  then have c: "\<not> isCharging (getPlayer side ?st') \<and> chargeLevel (getPlayer side ?st') = 0"
    by (simp add: drawSimulate_charge)
  have "ownedBy side ?st' = filter (survives (aiStep ?u)) (map moveProj (ownedBy side st1))"
    unfolding ownedBy_def drawSimulate_projectiles drawUndetected_projectiles
    by (rule ownedBy_filter_map)
  then show ?thesis using dr c kept by simp
qed

text \<open>
  C9 at a concrete run: the left player holds a full charge (level 1) after two ticks; on
  a frame without bodies the charge is cleared and the left player owns no projectile.
\<close>

theorem undetected_player_loses_charge_witness:
  "completed (run [frameAt [chargePose] 1000, frameAt [chargePose] 3000] initState)
   \<and> \<not> isGameOver (run [frameAt [chargePose] 1000, frameAt [chargePose] 3000] initState)
   \<and> isCharging (getPlayer SLeft (run [frameAt [chargePose] 1000, frameAt [chargePose] 3000] initState))
   \<and> chargeLevel (getPlayer SLeft (run [frameAt [chargePose] 1000, frameAt [chargePose] 3000] initState)) = 1
   \<and> drawDetect (frameAt [] 3016) (run [frameAt [chargePose] 1000, frameAt [chargePose] 3000] initState)
       = Done (False, False, run [frameAt [chargePose] 1000, frameAt [chargePose] 3000] initState)
   \<and> (\<exists>st'. draw (frameAt [] 3016) (run [frameAt [chargePose] 1000, frameAt [chargePose] 3000] initState)
               = Done st'
          \<and> \<not> isCharging (getPlayer SLeft st') \<and> chargeLevel (getPlayer SLeft st') = 0
          \<and> ownedBy SLeft st' = [])"
proof -
  let ?S1 = "run [frameAt [chargePose] 1000] initState"
  let ?S = "run [frameAt [chargePose] 1000, frameAt [chargePose] 3000] initState"
  have t1: "draw (frameAt [chargePose] 1000) initState = Done ?S1"
    using draw_complete[of "frameAt [chargePose] 1000" initState]
    by (cases "draw (frameAt [chargePose] 1000) initState")
       (simp_all add: frameAt_def chargePose_def)
  have t2: "draw (frameAt [chargePose] 3000) ?S1 = Done ?S"
    using draw_complete[of "frameAt [chargePose] 3000" ?S1]
    by (cases "draw (frameAt [chargePose] 3000) ?S1")
       (simp_all add: frameAt_def chargePose_def)
  have cp: "completed ?S" by (rule c_tick[OF c_tick[OF c_init t1] t2])
  have g: "\<not> isGameOver ?S"
    by (simp add: eval_defs chargePose_def)
  have c: "isCharging (getPlayer SLeft ?S)" "chargeLevel (getPlayer SLeft ?S) = 1"
    by (simp_all add: eval_defs chargePose_def)
  have d: "drawDetect (frameAt [] 3016) ?S = Done (False, False, ?S)"
    by (simp add: drawDetect_def frameAt_def)
  have o: "ownedBy SLeft ?S = []"
    by (simp add: ownedBy_def eval_defs chargePose_def)
  have "\<exists>st'. draw (frameAt [] 3016) ?S = Done st'
          \<and> \<not> isCharging (getPlayer SLeft st') \<and> chargeLevel (getPlayer SLeft st') = 0
          \<and> ownedBy SLeft st' = []"
    using undetected_player_loses_charge[OF cp g d, of SLeft] o by auto
  then show ?thesis using cp g c d by blast
qed

section \<open>The charge level over a run of callbacks\<close>

lemma holdsOut_conj:
  "holdsOut Q P m \<Longrightarrow> holdsOut Q' P' m \<Longrightarrow>
     holdsOut (\<lambda>a. Q a \<and> Q' a) (\<lambda>s. P s \<and> P' s) m"
  by (cases m) simp_all



















end
